theory Spec2Isabelle
  imports Complex_Main "HOL-Library.Word" "HOL-Library.Char_ord" "HOL-Library.List_Lexorder"
begin

unbundle bit_operations_syntax

section \<open>Python values and library interfaces used by server/main.py\<close>

text \<open>
  A Python \<open>str\<close> is modelled as \<open>string\<close>, holding its UTF-8 bytes; lexicographic
  order on UTF-8 bytes is the code point order Python compares strings by. An exception
  is a value: its class name and the text \<open>str(e)\<close> gives.
\<close>

datatype exn = Exc (exc_class: string) (exc_str: string)

datatype http_error = HTTPException (status_code: nat) (detail: string)

text \<open>The state of the module-level generator of \<open>random\<close> (CPython's MT19937 object).\<close>

record mt_state =
  mt :: "32 word list"
  mt_index :: nat

text \<open>
  The library functions whose internals are not part of the repository:
  \<^item> \<open>sha256\<close>: the digest \<open>hashlib.sha256\<close> computes of the bytes fed to it;
  \<^item> \<open>py_hash\<close>: the builtin \<open>hash\<close> on \<open>str\<close>, one fixed function for the life of
    the interpreter (its salt is drawn when the interpreter starts);
  \<^item> \<open>rnd_seed\<close>: the generator state \<open>random.seed(n)\<close> installs for an integer \<open>n\<close>;
  \<^item> \<open>rnd_random\<close>: one call of \<open>random.random()\<close>, which returns \<open>k / 2^53\<close> for the
    53-bit integer \<open>k\<close> given here, and the generator state after the call;
  \<^item> \<open>float_repr\<close>: \<open>float.__repr__\<close>, on the 64 bits of the float;
  \<^item> \<open>encode_basestring_ascii\<close>: the quoted, escaped form \<open>json\<close> writes a string in.
\<close>

record pylib =
  sha256 :: "8 word list \<Rightarrow> 256 word"
  py_hash :: "string \<Rightarrow> int"
  rnd_seed :: "int \<Rightarrow> mt_state"
  rnd_random :: "mt_state \<Rightarrow> 53 word \<times> mt_state"
  float_repr :: "64 word \<Rightarrow> string"
  encode_basestring_ascii :: "string \<Rightarrow> string"

subsection \<open>hexdigest\<close>

definition hexchar :: "nat \<Rightarrow> char" where
  "hexchar n = ''0123456789abcdef'' ! (n mod 16)"

text \<open>\<open>hexdigest()\<close>: the 32 bytes of the digest as 64 hexadecimal digits, highest first.\<close>

definition hexdigest :: "256 word \<Rightarrow> string" where
  "hexdigest d = map (\<lambda>i. hexchar (unat (drop_bit (4 * (63 - i)) d))) [0..<64]"

definition is_hex :: "char \<Rightarrow> bool" where
  "is_hex c = (c \<in> set ''0123456789abcdef'')"

subsection \<open>JSON documents and \<open>json.dumps(data, sort_keys=True)\<close>\<close>

text \<open>
  What \<open>json.load\<close> returns: \<open>None\<close>, a bool, an int, a float, a str, a list, or a dict
  with str keys. A dict is the list of its items in insertion order.
\<close>

datatype json =
    JNull
  | JBool bool
  | JInt int
  | JFloat "64 word"
  | JStr string
  | JList "json list"
  | JObj "(string \<times> json) list"

fun join :: "string \<Rightarrow> string list \<Rightarrow> string" where
  "join sep [] = []"
| "join sep [x] = x"
| "join sep (x # y # ys) = x @ sep @ join sep (y # ys)"

fun str_nat :: "nat \<Rightarrow> string" where
  "str_nat n = (if n < 10 then [''0123456789'' ! n]
                else str_nat (n div 10) @ [''0123456789'' ! (n mod 10)])"

declare str_nat.simps [simp del]

definition str_int :: "int \<Rightarrow> string" where
  "str_int i = (if i < 0 then ''-'' @ str_nat (nat (- i)) else str_nat (nat i))"

fun dumps :: "pylib \<Rightarrow> json \<Rightarrow> string" where
  "dumps L JNull = ''null''"
| "dumps L (JBool b) = (if b then ''true'' else ''false'')"
| "dumps L (JInt i) = str_int i"
| "dumps L (JFloat f) = float_repr L f"
| "dumps L (JStr s) = encode_basestring_ascii L s"
| "dumps L (JList xs) = ''['' @ join '', '' (map (dumps L) xs) @ '']''"
| "dumps L (JObj kvs) =
     ''{'' @ join '', ''
        (map (\<lambda>kv. encode_basestring_ascii L (fst kv) @ '': '' @ dumps L (snd kv))
           (sort_key fst kvs)) @ ''}''"

subsection \<open>The Content Hasher\<close>

text \<open>
  The loop of \<open>compute_file_hash\<close>: \<open>f.read(8192)\<close> until it returns \<open>b""\<close>, each chunk
  passed to \<open>sha256.update\<close>. The hash object is the bytes it has been fed so far.
\<close>

function update_chunks :: "8 word list \<Rightarrow> 8 word list \<Rightarrow> 8 word list" where
  "update_chunks f fed =
     (let chunk = take 8192 f in
      if chunk = [] then fed else update_chunks (drop 8192 f) (fed @ chunk))"
  by pat_completeness auto
termination
  by (relation "measure (\<lambda>(f, fed). length f)") auto

declare update_chunks.simps [simp del]

text \<open>\<open>opn path\<close> is the content of the file, or the error \<open>open\<close> or \<open>read\<close> raises.\<close>

definition compute_file_hash ::
  "pylib \<Rightarrow> (string \<Rightarrow> exn + 8 word list) \<Rightarrow> string \<Rightarrow> exn + string" where
  "compute_file_hash L opn file_path =
     (case opn file_path of
        Inl e \<Rightarrow> Inl e
      | Inr content \<Rightarrow> Inr (take 16 (hexdigest (sha256 L (update_chunks content [])))))"

text \<open>\<open>str.encode()\<close>: the UTF-8 bytes of the string.\<close>

definition encode :: "string \<Rightarrow> 8 word list" where
  "encode s = map (\<lambda>c. of_nat (of_char c)) s"

definition compute_data_hash :: "pylib \<Rightarrow> json \<Rightarrow> string" where
  "compute_data_hash L data = take 16 (hexdigest (sha256 L (encode (dumps L data))))"

section \<open>Python floats\<close>

text \<open>
  A finite Python float is modelled by the rational number it denotes. \<open>fl\<close> rounds a
  rational to the nearest binary64 number, ties to the even significand, as every
  floating-point operation and every decimal literal does: 53 significant bits, the unit
  in the last place being \<open>2 ^ (e - 52)\<close> for a number in \<open>[2 ^ e, 2 ^ (e + 1))\<close>. The
  exponent is not bounded here: the floats of this program lie between \<open>2 ^ - 55\<close> and
  \<open>1\<close> or are zero, far from overflow and from the subnormal range.
\<close>

fun bits :: "nat \<Rightarrow> nat" where
  "bits n = (if n = 0 then 0 else Suc (bits (n div 2)))"

declare bits.simps [simp del]

text \<open>Round to the nearest integer, ties to even.\<close>

definition rne :: "rat \<Rightarrow> int" where
  "rne x = (let f = \<lfloor>x\<rfloor>; d = x - of_int f in
     if d < 1 / 2 then f else if 1 / 2 < d then f + 1 else if even f then f else f + 1)"

text \<open>The binary exponent of a non-zero number: \<open>2 ^ expo x \<le> \<bar>x\<bar> < 2 ^ (expo x + 1)\<close>.\<close>

definition expo :: "rat \<Rightarrow> int" where
  "expo x = (let (n, d) = quotient_of \<bar>x\<bar>;
                 e = int (bits (nat n)) - int (bits (nat d))
             in if 2 powi e \<le> \<bar>x\<bar> then e else e - 1)"

definition fl :: "rat \<Rightarrow> rat" where
  "fl x = (if x = 0 then 0 else
     let u = 2 powi (expo x - 52) in of_int (rne (x / u)) * u)"

text \<open>
  \<open>round(x, ndigits)\<close> on a float: the decimal with \<open>ndigits\<close> places nearest to the exact
  value of \<open>x\<close> (ties to even), then the float nearest to that decimal.
\<close>

definition py_round :: "rat \<Rightarrow> nat \<Rightarrow> rat" where
  "py_round x ndigits = fl (of_int (rne (x * 10 ^ ndigits)) / 10 ^ ndigits)"

section \<open>The \<open>random\<close> module\<close>

text \<open>\<open>itertools.accumulate\<close> on floats: the running sums, each addition rounded.\<close>

fun accumulate_from :: "rat \<Rightarrow> rat list \<Rightarrow> rat list" where
  "accumulate_from t [] = []"
| "accumulate_from t (x # xs) = fl (t + x) # accumulate_from (fl (t + x)) xs"

definition accumulate :: "rat list \<Rightarrow> rat list" where
  "accumulate ws = (case ws of [] \<Rightarrow> [] | w # ws' \<Rightarrow> w # accumulate_from w ws')"

text \<open>\<open>bisect.bisect_right(a, x, lo, hi)\<close>.\<close>

function bisect :: "rat list \<Rightarrow> rat \<Rightarrow> nat \<Rightarrow> nat \<Rightarrow> nat" where
  "bisect a x lo hi =
     (if lo < hi then
        (let mid = (lo + hi) div 2 in
         if x < a ! mid then bisect a x lo mid else bisect a x (mid + 1) hi)
      else lo)"
  by pat_completeness auto
termination
  by (relation "measure (\<lambda>(a, x, lo, hi). hi - lo)") auto

declare bisect.simps [simp del]

text \<open>\<open>random.random()\<close>: the float \<open>k / 2 ^ 53\<close> for the generator's next 53 bits.\<close>

definition random_float :: "pylib \<Rightarrow> mt_state \<Rightarrow> rat \<times> mt_state" where
  "random_float L g = (case rnd_random L g of (k, g') \<Rightarrow> (of_nat (unat k) / 2 ^ 53, g'))"

text \<open>\<open>random.choices(population, weights)\<close> with \<open>k = 1\<close>.\<close>

definition choices ::
  "pylib \<Rightarrow> 'a list \<Rightarrow> rat list \<Rightarrow> mt_state \<Rightarrow> (exn + 'a list) \<times> mt_state" where
  "choices L population weights g =
     (let n = length population; cum_weights = accumulate weights in
      if length cum_weights \<noteq> n then
        (Inl (Exc ''ValueError'' ''The number of weights does not match the population''), g)
      else if cum_weights = [] then
        (Inl (Exc ''IndexError'' ''list index out of range''), g)
      else
        (let total = fl (last cum_weights + 0) in
         if total \<le> 0 then
           (Inl (Exc ''ValueError'' ''Total of weights must be greater than zero''), g)
         else
           (case random_float L g of
              (r, g') \<Rightarrow>
                (Inr [population ! bisect cum_weights (fl (r * total)) 0 (n - 1)], g'))))"

text \<open>\<open>random.uniform(a, b)\<close>: \<open>a + (b - a) * random()\<close>.\<close>

definition uniform :: "pylib \<Rightarrow> rat \<Rightarrow> rat \<Rightarrow> mt_state \<Rightarrow> rat \<times> mt_state" where
  "uniform L a b g =
     (case random_float L g of (r, g') \<Rightarrow> (fl (a + fl (fl (b - a) * r)), g'))"

section \<open>Data model\<close>

text \<open>
  One entry of \<open>LABEL_MAP\<close>: the dicts under \<open>"labels"\<close> and \<open>"labels_es"\<close>, \<open>None\<close> when
  the key is absent.
\<close>

record rubric =
  labels :: "(string \<times> string) list option"
  labels_es :: "(string \<times> string) list option"

record prediction =
  p_behavior_id :: string
  pred :: int
  confidence :: rat
  rubric_text :: string
  rubric_text_es :: string

record inference_metadata =
  model_version :: string
  input_hash :: string
  processed_at :: string

record job_results =
  r_job_id :: string
  r_input_id :: string
  r_input_type :: string
  r_behavior_id :: string
  r_prediction :: prediction
  r_metadata :: inference_metadata

text \<open>The content of \<open>metadata.json\<close>.\<close>

record run_metadata =
  m_job_id :: string
  m_input_id :: string
  m_input_type :: string
  m_behavior_id :: string
  m_input_path :: string
  m_input_hash :: string
  m_model_version :: string
  m_started_at :: string
  m_completed_at :: string
  m_dummy_mode :: bool

text \<open>A job dict of the registry \<open>jobs\<close>.\<close>

record job =
  job_id :: string
  input_id :: string
  input_type :: string
  behavior_id :: string
  status :: string
  progress :: int
  message :: string
  error :: "string option"
  results :: "job_results option"
  created_at :: string

text \<open>The response model \<open>JobStatus\<close>.\<close>

record job_status =
  js_status :: string
  js_progress :: int
  js_message :: string
  js_error :: "string option"

text \<open>A directory \<open>RUNS_DIR / job_id\<close>: the documents written in it so far.\<close>

record run_dir =
  results_json :: "job_results option"
  metadata_json :: "run_metadata option"

text \<open>
  The mutable state of the server process. \<open>jobs\<close> maps a job identifier to a reference to
  its dict and \<open>heap\<close> holds the dicts, since the handlers and the runner share them by
  reference; \<open>next_ref\<close> is the next unused reference. \<open>runs\<close> is the content of
  \<open>RUNS_DIR\<close> and \<open>rng\<close> the state of the module-level generator of \<open>random\<close>.
\<close>

record world =
  jobs :: "string \<rightharpoonup> nat"
  heap :: "nat \<Rightarrow> job"
  next_ref :: nat
  runs :: "string \<rightharpoonup> run_dir"
  rng :: mt_state

text \<open>
  What a run reads from outside the process: the label map loaded at start, whether the
  model file exists, the \<open>DIANA_DUMMY_MODE\<close> flag, which files exist, the input files
  (\<open>open_rb\<close> for \<open>open\<close> and the reads of a video, \<open>load_json\<close> for \<open>open\<close> and
  \<open>json.load\<close> of a skeleton file, each with the error it raises), the errors
  \<open>mkdir\<close> and the writes of the two documents raise if any, and the clock
  (\<open>utcnow n\<close> is \<open>datetime.utcnow().isoformat() + "Z"\<close> at the \<open>n\<close>-th reading).
\<close>

record env =
  LABEL_MAP :: "(string \<times> rubric) list"
  model_exists :: bool
  DUMMY_MODE :: bool
  path_exists :: "string \<Rightarrow> bool"
  open_rb :: "string \<Rightarrow> exn + 8 word list"
  load_json :: "string \<Rightarrow> exn + json"
  mkdir_error :: "string \<Rightarrow> exn option"
  write_error :: "string \<Rightarrow> string \<Rightarrow> exn option"
  utcnow :: "nat \<Rightarrow> string"

definition BEHAVIOR_IDS :: "env \<Rightarrow> string list" where
  "BEHAVIOR_IDS E = map fst (LABEL_MAP E)"

definition is_model_available :: "env \<Rightarrow> bool" where
  "is_model_available E = (model_exists E \<and> \<not> DUMMY_MODE E)"

section \<open>The Prediction Generator\<close>

text \<open>\<open>d.get(key, default)\<close> on a dict given by its items.\<close>

definition get_or :: "('k \<times> 'v) list \<Rightarrow> 'k \<Rightarrow> 'v \<Rightarrow> 'v" where
  "get_or d k dflt = (case map_of d k of None \<Rightarrow> dflt | Some v \<Rightarrow> v)"

definition generate_dummy_prediction ::
  "pylib \<Rightarrow> (string \<times> rubric) list \<Rightarrow> string \<Rightarrow> string \<Rightarrow> mt_state
     \<Rightarrow> (exn + prediction) \<times> mt_state" where
  "generate_dummy_prediction L label_map bid ihash g0 =
     (let g1 = rnd_seed L (py_hash L (bid @ ''_'' @ ihash));
          behavior = get_or label_map bid \<lparr>labels = None, labels_es = None\<rparr>;
          lbls = (case labels behavior of None \<Rightarrow> [] | Some d \<Rightarrow> d);
          lbls_es = (case labels_es behavior of None \<Rightarrow> [] | Some d \<Rightarrow> d)
      in case choices L [0, 1, 2] [fl (2 / 10), fl (35 / 100), fl (45 / 100)] g1 of
           (Inl e, g2) \<Rightarrow> (Inl e, g2)
         | (Inr [], g2) \<Rightarrow> (Inl (Exc ''IndexError'' ''list index out of range''), g2)
         | (Inr (p # _), g2) \<Rightarrow>
             (case uniform L (fl (65 / 100)) (fl (95 / 100)) g2 of
                (c, g3) \<Rightarrow>
                  (Inr \<lparr>p_behavior_id = bid,
                        pred = p,
                        confidence = py_round c 4,
                        rubric_text = get_or lbls (str_int p) [],
                        rubric_text_es = get_or lbls_es (str_int p) []\<rparr>, g3)))"

section \<open>The Job Runner\<close>

text \<open>
  A step of \<open>run_inference\<close> runs in the current state of the process and a log: the
  states right after each \<open>with jobs_lock\<close> block executed so far, oldest first. It
  either raises, leaving the state it raised in, or returns a value.
\<close>

type_synonym rstate = "world \<times> world list"

type_synonym 'a step = "rstate \<Rightarrow> (exn \<times> rstate) + ('a \<times> rstate)"

definition raise_or :: "exn + 'a \<Rightarrow> 'a step" where
  "raise_or r s = (case r of Inl e \<Rightarrow> Inl (e, s) | Inr a \<Rightarrow> Inr (a, s))"

definition and_then :: "'a step \<Rightarrow> ('a \<Rightarrow> 'b step) \<Rightarrow> 'b step" where
  "and_then m f s = (case m s of Inl es \<Rightarrow> Inl es | Inr (a, s') \<Rightarrow> f a s')"

text \<open>\<open>repr\<close> of a str without quotes or escapes in it, as \<open>KeyError\<close> prints its key.\<close>

definition repr_str :: "string \<Rightarrow> string" where
  "repr_str k = [CHR 0x27] @ k @ [CHR 0x27]"

text \<open>
  \<open>with jobs_lock:\<close> followed by assignments \<open>jobs[job_id][field] = value\<close>: the dict
  the registry holds for \<open>job_id\<close> is changed in place, \<open>KeyError\<close> when there is none.
  \<open>assign_fields r f\<close> is the assignments \<open>f\<close> done on the dict at reference \<open>r\<close>.
\<close>

definition assign_fields :: "nat \<Rightarrow> (job \<Rightarrow> job) \<Rightarrow> world \<Rightarrow> world" where
  "assign_fields r f w = w\<lparr>heap := (heap w)(r := f (heap w r))\<rparr>"

definition with_jobs_lock :: "string \<Rightarrow> (job \<Rightarrow> job) \<Rightarrow> unit step" where
  "with_jobs_lock jid f s =
     (case jobs (fst s) jid of
        None \<Rightarrow> Inl (Exc ''KeyError'' (repr_str jid), s)
      | Some r \<Rightarrow>
          (let w' = assign_fields r f (fst s) in Inr ((), (w', snd s @ [w']))))"

text \<open>The assignments of the four \<open>with jobs_lock\<close> blocks of \<open>run_inference\<close>.\<close>

definition mark_processing :: "job \<Rightarrow> job" where
  "mark_processing j =
     j\<lparr>status := ''processing'', message := ''Iniciando procesamiento...'', progress := 5\<rparr>"

definition set_stage :: "int \<times> string \<Rightarrow> job \<Rightarrow> job" where
  "set_stage st j = j\<lparr>progress := fst st, message := snd st\<rparr>"

definition mark_completed :: "job_results \<Rightarrow> job \<Rightarrow> job" where
  "mark_completed res j =
     j\<lparr>status := ''completed'', progress := 100,
       message := ''An'' @ [CHR 0xC3, CHR 0xA1] @ ''lisis completado'',
       results := Some res\<rparr>"

definition mark_failed :: "exn \<Rightarrow> job \<Rightarrow> job" where
  "mark_failed e j =
     j\<lparr>status := ''failed'', error := Some (exc_str e), message := ''Error: '' @ exc_str e\<rparr>"

definition stages :: "string \<Rightarrow> (int \<times> string) list" where
  "stages bid =
     [(15, ''Cargando datos...''),
      (35, ''Preprocesando...''),
      (55, ''Extrayendo caracter'' @ [CHR 0xC3, CHR 0xAD] @ ''sticas...''),
      (75, ''Evaluando '' @ bid @ ''...''),
      (90, ''Generando predicci'' @ [CHR 0xC3, CHR 0xB3] @ ''n...'')]"

text \<open>The loop over the stages; \<open>time.sleep(0.4)\<close> changes nothing in the state.\<close>

fun run_stages :: "string \<Rightarrow> (int \<times> string) list \<Rightarrow> unit step" where
  "run_stages jid [] = raise_or (Inr ())"
| "run_stages jid (st # rest) =
     and_then (with_jobs_lock jid (set_stage st)) (\<lambda>_. run_stages jid rest)"

definition compute_input_hash :: "env \<Rightarrow> pylib \<Rightarrow> string \<Rightarrow> string \<Rightarrow> exn + string" where
  "compute_input_hash E L in_path in_type =
     (if in_type = ''video'' then compute_file_hash L (open_rb E) in_path
      else (case load_json E in_path of
              Inl e \<Rightarrow> Inl e
            | Inr data \<Rightarrow> Inr (compute_data_hash L data)))"

definition predict_step :: "env \<Rightarrow> pylib \<Rightarrow> string \<Rightarrow> string \<Rightarrow> prediction step" where
  "predict_step E L bid ihash s =
     (case generate_dummy_prediction L (LABEL_MAP E) bid ihash (rng (fst s)) of
        (r, g) \<Rightarrow> raise_or r ((fst s)\<lparr>rng := g\<rparr>, snd s))"

definition mkdir_step :: "env \<Rightarrow> string \<Rightarrow> unit step" where
  "mkdir_step E jid s =
     (case mkdir_error E jid of
        Some e \<Rightarrow> Inl (e, s)
      | None \<Rightarrow>
          Inr ((), ((fst s)\<lparr>runs := (runs (fst s))
                      (jid \<mapsto> (case runs (fst s) jid of
                                 None \<Rightarrow> \<lparr>results_json = None, metadata_json = None\<rparr>
                               | Some d \<Rightarrow> d))\<rparr>, snd s)))"

definition write_step :: "env \<Rightarrow> string \<Rightarrow> string \<Rightarrow> (run_dir \<Rightarrow> run_dir) \<Rightarrow> unit step" where
  "write_step E jid name f s =
     (case write_error E jid name of
        Some e \<Rightarrow> Inl (e, s)
      | None \<Rightarrow>
          (case runs (fst s) jid of
             None \<Rightarrow> Inl (Exc ''FileNotFoundError'' (jid @ ''/'' @ name), s)
           | Some d \<Rightarrow> Inr ((), ((fst s)\<lparr>runs := (runs (fst s))(jid \<mapsto> f d)\<rparr>, snd s))))"

text \<open>\<open>jobs[job_id].get("created_at")\<close>.\<close>

definition read_created_at :: "string \<Rightarrow> string step" where
  "read_created_at jid s =
     (case jobs (fst s) jid of
        None \<Rightarrow> Inl (Exc ''KeyError'' (repr_str jid), s)
      | Some r \<Rightarrow> Inr (created_at (heap (fst s) r), s))"

text \<open>
  The body of the \<open>try\<close> of \<open>run_inference\<close>, in two parts: up to the end of the stages,
  and \<open>finish_block\<close> from the prediction to the last update.
\<close>

definition finish_block ::
  "env \<Rightarrow> pylib \<Rightarrow> string \<Rightarrow> string \<Rightarrow> string \<Rightarrow> string \<Rightarrow> string \<Rightarrow> string \<Rightarrow> unit step" where
  "finish_block E L in_path in_type bid jid iid ihash =
     and_then (predict_step E L bid ihash) (\<lambda>prediction.
     (let mv = (if \<not> is_model_available E then ''dummy-v1.0'' else ''diana-v1.0'');
          res = \<lparr>r_job_id = jid, r_input_id = iid, r_input_type = in_type,
                 r_behavior_id = bid, r_prediction = prediction,
                 r_metadata = \<lparr>model_version = mv, input_hash = ihash,
                                processed_at = utcnow E 0\<rparr>\<rparr>
      in
     and_then (mkdir_step E jid) (\<lambda>_.
     and_then (write_step E jid ''results.json'' (\<lambda>d. d\<lparr>results_json := Some res\<rparr>)) (\<lambda>_.
     and_then (read_created_at jid) (\<lambda>started.
     and_then (write_step E jid ''metadata.json''
                 (\<lambda>d. d\<lparr>metadata_json := Some
                    \<lparr>m_job_id = jid, m_input_id = iid, m_input_type = in_type,
                     m_behavior_id = bid, m_input_path = in_path, m_input_hash = ihash,
                     m_model_version = mv, m_started_at = started,
                     m_completed_at = utcnow E 1,
                     m_dummy_mode = (\<not> is_model_available E)\<rparr>\<rparr>)) (\<lambda>_.
     with_jobs_lock jid (mark_completed res)))))))"

definition try_block ::
  "env \<Rightarrow> pylib \<Rightarrow> string \<Rightarrow> string \<Rightarrow> string \<Rightarrow> string \<Rightarrow> string \<Rightarrow> unit step" where
  "try_block E L in_path in_type bid jid iid =
     and_then (with_jobs_lock jid mark_processing) (\<lambda>_.
     and_then (raise_or (compute_input_hash E L in_path in_type)) (\<lambda>ihash.
     and_then (run_stages jid (stages bid)) (\<lambda>_.
     finish_block E L in_path in_type bid jid iid ihash)))"

text \<open>The \<open>except Exception as e\<close> block.\<close>

definition except_block :: "string \<Rightarrow> exn \<Rightarrow> unit step" where
  "except_block jid e =
     with_jobs_lock jid (mark_failed e)"

definition run_inference ::
  "env \<Rightarrow> pylib \<Rightarrow> string \<Rightarrow> string \<Rightarrow> string \<Rightarrow> string \<Rightarrow> string \<Rightarrow> unit step" where
  "run_inference E L in_path in_type bid jid iid s =
     (case try_block E L in_path in_type bid jid iid s of
        Inl (e, s') \<Rightarrow> except_block jid e s'
      | Inr r \<Rightarrow> Inr r)"

section \<open>The handlers\<close>

definition UPLOADS_DIR :: string where
  "UPLOADS_DIR = ''uploads''"

definition SKELETONS_DIR :: string where
  "SKELETONS_DIR = ''skeletons''"

text \<open>The search of \<open>start_inference\<close> for the input file.\<close>

definition find_input :: "env \<Rightarrow> string \<Rightarrow> string \<Rightarrow> string option" where
  "find_input E in_type iid =
     (if in_type = ''video'' then
        find (path_exists E)
          (map (\<lambda>ext. UPLOADS_DIR @ ''/'' @ iid @ ext)
             [''.mp4'', ''.mov'', ''.avi'', ''.mkv'', ''.webm''])
      else
        (let candidate = SKELETONS_DIR @ ''/'' @ iid @ ''.json''
         in if path_exists E candidate then Some candidate else None))"

text \<open>\<open>str.capitalize()\<close> on the two values \<open>input_type\<close> can have.\<close>

definition capitalize :: "string \<Rightarrow> string" where
  "capitalize t = (if t = ''video'' then ''Video'' else ''Skeleton'')"

text \<open>
  \<open>start_inference\<close>, up to the scheduling of the background task: the job identifier
  \<open>new_id\<close> is what \<open>str(uuid.uuid4())\<close> returns and \<open>now\<close> the clock reading. It returns
  the identifier, the path of the input the runner is to be started with, and the state.
\<close>

definition start_inference ::
  "env \<Rightarrow> string \<Rightarrow> string \<Rightarrow> string \<Rightarrow> string \<Rightarrow> string \<Rightarrow> world
     \<Rightarrow> http_error + (string \<times> string \<times> world)" where
  "start_inference E new_id now iid in_type bid w =
     (if bid \<notin> set (BEHAVIOR_IDS E) then
        Inl (HTTPException 400
               (''Invalid behavior_id. Valid options: '' @ join '', '' (BEHAVIOR_IDS E)))
      else
        (case find_input E in_type iid of
           None \<Rightarrow> Inl (HTTPException 404 (capitalize in_type @ '' not found''))
         | Some in_path \<Rightarrow>
             Inr (new_id, in_path,
                  w\<lparr>jobs := (jobs w)(new_id \<mapsto> next_ref w),
                    heap := (heap w)(next_ref w :=
                      \<lparr>job_id = new_id, input_id = iid, input_type = in_type,
                       behavior_id = bid, status = ''pending'', progress = 0,
                       message = ''En cola...'', error = None, results = None,
                       created_at = now\<rparr>),
                    next_ref := Suc (next_ref w)\<rparr>)))"

text \<open>
  \<open>with jobs_lock: job = jobs.get(job_id)\<close>: the reference the registry holds, or \<open>None\<close>.
\<close>

definition jobs_get :: "world \<Rightarrow> string \<Rightarrow> nat option" where
  "jobs_get w jid = jobs w jid"

text \<open>
  The rest of \<open>get_job_status\<close>, after the lock is released: the fields are read through
  the reference, in the state of the process at that time.
\<close>

definition job_status_response :: "world \<Rightarrow> nat option \<Rightarrow> http_error + job_status" where
  "job_status_response w jref =
     (case jref of
        None \<Rightarrow> Inl (HTTPException 404 ''Job not found'')
      | Some r \<Rightarrow>
          Inr \<lparr>js_status = status (heap w r), js_progress = progress (heap w r),
                js_message = message (heap w r), js_error = error (heap w r)\<rparr>)"

definition get_job_status :: "world \<Rightarrow> string \<Rightarrow> http_error + job_status" where
  "get_job_status w jid = job_status_response w (jobs_get w jid)"

text \<open>The rest of \<open>get_job_results\<close>, after the lock is released.\<close>

definition job_results_response ::
  "world \<Rightarrow> string \<Rightarrow> nat option \<Rightarrow> http_error + job_results" where
  "job_results_response w jid jref =
     (case jref of
        None \<Rightarrow> Inl (HTTPException 404 ''Job not found'')
      | Some r \<Rightarrow>
          (if status (heap w r) \<noteq> ''completed'' then
             Inl (HTTPException 400
                    (''Job not completed. Current status: '' @ status (heap w r)))
           else
             (case results (heap w r) of
                Some res \<Rightarrow> Inr res
              | None \<Rightarrow>
                  (case runs w jid of
                     None \<Rightarrow> Inl (HTTPException 500 ''Results not found'')
                   | Some d \<Rightarrow>
                       (case results_json d of
                          None \<Rightarrow> Inl (HTTPException 500 ''Results not found'')
                        | Some res \<Rightarrow> Inr res)))))"

definition get_job_results :: "world \<Rightarrow> string \<Rightarrow> http_error + job_results" where
  "get_job_results w jid = job_results_response w jid (jobs_get w jid)"

section \<open>Observing a run\<close>

text \<open>
  The snapshots of the job dict at reference \<open>r\<close> over a run started in state \<open>w\<close>: its
  content at the start and right after each \<open>with jobs_lock\<close> block, oldest first.
\<close>

definition run_log :: "(exn \<times> rstate) + (unit \<times> rstate) \<Rightarrow> world list" where
  "run_log res = (case res of Inl (e, s) \<Rightarrow> snd s | Inr (u, s) \<Rightarrow> snd s)"

definition job_trace :: "nat \<Rightarrow> world \<Rightarrow> (exn \<times> rstate) + (unit \<times> rstate) \<Rightarrow> job list" where
  "job_trace r w res = map (\<lambda>x. heap x r) (w # run_log res)"

text \<open>The states after each stage update, for a loop started in state \<open>w\<close>.\<close>

fun stage_worlds :: "nat \<Rightarrow> (int \<times> string) list \<Rightarrow> world \<Rightarrow> world list" where
  "stage_worlds r [] w = []"
| "stage_worlds r (st # rest) w =
     assign_fields r (set_stage st) w # stage_worlds r rest (assign_fields r (set_stage st) w)"

text \<open>
  A step is quiet when it leaves the registry, the job dicts and the log as they are,
  whether it returns or raises.
\<close>

definition quiet :: "rstate \<Rightarrow> rstate \<Rightarrow> bool" where
  "quiet s s' = (jobs (fst s') = jobs (fst s) \<and> heap (fst s') = heap (fst s) \<and> snd s' = snd s)"

definition quiet_step :: "'a step \<Rightarrow> bool" where
  "quiet_step m = (\<forall>s. case m s of Inl (e, s') \<Rightarrow> quiet s s' | Inr (a, s') \<Rightarrow> quiet s s')"

text \<open>
  A step completes the job at \<open>r\<close> when it either raises quietly or returns after
  one update, \<open>mark_completed\<close>, as its only change to the dicts and the log.
\<close>

definition completes :: "nat \<Rightarrow> string \<Rightarrow> unit step \<Rightarrow> bool" where
  "completes r jid m =
     (\<forall>s. jobs (fst s) jid = Some r \<longrightarrow>
        (case m s of
           Inl (e, s') \<Rightarrow> quiet s s'
         | Inr (u, s') \<Rightarrow>
             (\<exists>res w'. quiet s (w', snd s) \<and>
                s' = (assign_fields r (mark_completed res) w',
                      snd s @ [assign_fields r (mark_completed res) w']))))"


text \<open>The job dicts after each stage update, for a loop started on the dict \<open>j\<close>.\<close>

fun stage_jobs :: "(int \<times> string) list \<Rightarrow> job \<Rightarrow> job list" where
  "stage_jobs [] j = []"
| "stage_jobs (st # rest) j = set_stage st j # stage_jobs rest (set_stage st j)"


text \<open>The job dict a run ended with, if it returned.\<close>

definition final_job :: "nat \<Rightarrow> (exn \<times> rstate) + (unit \<times> rstate) \<Rightarrow> job option" where
  "final_job r res = (case res of Inl es \<Rightarrow> None | Inr (u, s) \<Rightarrow> Some (heap (fst s) r))"

section \<open>A concrete library, environment and state\<close>

text \<open>
  Small stand-ins for the library functions and the outside of the process, to run the
  model on concrete inputs: a label map with one behavior, one skeleton file, no model.
\<close>

definition example_lib :: pylib where
  "example_lib =
     \<lparr>sha256 = (\<lambda>bs. of_nat (length bs)),
      py_hash = (\<lambda>s. int (length s)),
      rnd_seed = (\<lambda>n. \<lparr>mt = [word_of_int n], mt_index = 0\<rparr>),
      rnd_random = (\<lambda>g. (4503599627370496 + of_nat (mt_index g),
                          g\<lparr>mt_index := Suc (mt_index g)\<rparr>)),
      float_repr = (\<lambda>f. ''0.0''),
      encode_basestring_ascii = (\<lambda>s. [CHR 0x22] @ s @ [CHR 0x22])\<rparr>"

definition example_env :: env where
  "example_env =
     \<lparr>LABEL_MAP =
        [(''B1'', \<lparr>labels = Some [(''0'', ''low''), (''1'', ''mid''), (''2'', ''high'')],
                   labels_es = Some [(''0'', ''bajo''), (''1'', ''medio''), (''2'', ''alto'')]\<rparr>)],
      model_exists = False,
      DUMMY_MODE = True,
      path_exists = (\<lambda>p. p = ''skeletons/in1.json''),
      open_rb = (\<lambda>p. Inl (Exc ''FileNotFoundError'' p)),
      load_json = (\<lambda>p. if p = ''skeletons/in1.json''
                        then Inr (JObj [(''b'', JInt 1), (''a'', JList [JInt 2, JNull])])
                        else Inl (Exc ''FileNotFoundError'' p)),
      mkdir_error = (\<lambda>d. None),
      write_error = (\<lambda>d name. None),
      utcnow = (\<lambda>n. ''2024-01-01T00:00:0'' @ str_nat n @ ''Z'')\<rparr>"

text \<open>The same environment, where reading the skeleton file raises \<open>MemoryError()\<close>.\<close>

definition example_env_oom :: env where
  "example_env_oom = example_env\<lparr>load_json := (\<lambda>p. Inl (Exc ''MemoryError'' []))\<rparr>"

definition example_world :: world where
  "example_world =
     \<lparr>jobs = Map.empty,
      heap = (\<lambda>r. \<lparr>job_id = [], input_id = [], input_type = [], behavior_id = [],
                     status = [], progress = 0, message = [], error = None, results = None,
                     created_at = []\<rparr>),
      next_ref = 0,
      runs = Map.empty,
      rng = \<lparr>mt = [], mt_index = 0\<rparr>\<rparr>"

text \<open>The state after the submission of job \<open>job-1\<close> for the skeleton \<open>in1\<close>.\<close>

definition example_submitted :: world where
  "example_submitted =
     (case start_inference example_env ''job-1'' ''2024-01-01T00:00:00Z'' ''in1'' ''skeleton''
             ''B1'' example_world of
        Inl err \<Rightarrow> example_world
      | Inr (jid, in_path, w) \<Rightarrow> w)"

text \<open>The state after the run of job \<open>job-1\<close>.\<close>

definition example_completed :: world where
  "example_completed =
     (case run_inference example_env example_lib ''skeletons/in1.json'' ''skeleton'' ''B1''
             ''job-1'' ''in1'' (example_submitted, []) of
        Inl es \<Rightarrow> example_submitted
      | Inr (u, s) \<Rightarrow> fst s)"

section \<open>Documents that differ in key order only\<close>

text \<open>
  Two documents are the same up to the order of mapping keys: equal scalars, lists of the
  same length with the same documents position by position, and dicts (whose keys are
  distinct) with the same key set and, under each key, the same document.
\<close>

inductive same_doc :: "json \<Rightarrow> json \<Rightarrow> bool" where
  same_null: "same_doc JNull JNull"
| same_bool: "same_doc (JBool b) (JBool b)"
| same_int: "same_doc (JInt i) (JInt i)"
| same_float: "same_doc (JFloat f) (JFloat f)"
| same_str: "same_doc (JStr s) (JStr s)"
| same_list: "list_all2 same_doc xs ys \<Longrightarrow> same_doc (JList xs) (JList ys)"
| same_obj:
    "distinct (map fst kvs) \<Longrightarrow> distinct (map fst kvs') \<Longrightarrow>
     set (map fst kvs) = set (map fst kvs') \<Longrightarrow>
     (\<forall>k v v'. (k, v) \<in> set kvs \<longrightarrow> (k, v') \<in> set kvs' \<longrightarrow> same_doc v v') \<Longrightarrow>
     same_doc (JObj kvs) (JObj kvs')"

section \<open>Verification\<close>

subsection \<open>Content Hasher\<close>

lemma update_chunks_all: "update_chunks f fed = fed @ f"
proof (induction f fed rule: update_chunks.induct)
  case (1 f fed)
  show ?case
  proof (cases "take 8192 f = []")
    case True
    then have "f = []" by (cases f) auto
    then show ?thesis by (subst update_chunks.simps) simp
  next
    case False
    with "1" have "update_chunks (drop 8192 f) (fed @ take 8192 f) = (fed @ take 8192 f) @ drop 8192 f"
      by simp
    with False show ?thesis by (subst update_chunks.simps) (simp add: Let_def)
  qed
qed

lemma length_hexdigest: "length (hexdigest d) = 64"
  by (simp add: hexdigest_def)

lemma is_hex_hexchar: "is_hex (hexchar n)"
proof -
  have "n mod 16 < length ''0123456789abcdef''" by simp
  then have "''0123456789abcdef'' ! (n mod 16) \<in> set ''0123456789abcdef''"
    by (rule nth_mem)
  then show ?thesis unfolding is_hex_def hexchar_def .
qed

lemma list_all_hexdigest: "list_all is_hex (hexdigest d)"
  by (simp add: hexdigest_def list_all_iff is_hex_hexchar)

lemma list_all_take: "list_all P xs \<Longrightarrow> list_all P (take n xs)"
  by (auto simp: list_all_iff dest: in_set_takeD)

text \<open>
  C10. Every fingerprint is exactly 16 hexadecimal characters: \<open>compute_data_hash\<close> on any
  document, and \<open>compute_file_hash\<close> on any file that can be read, where it is the first 16
  digits of the digest of the whole content (the chunked reads feed exactly the content);
  when the file cannot be read the error is passed on.
\<close>

theorem fingerprint_16_hex:
  "length (compute_data_hash L data) = 16 \<and> list_all is_hex (compute_data_hash L data) \<and>
   (case opn file_path of
      Inl e \<Rightarrow> compute_file_hash L opn file_path = Inl e
    | Inr content \<Rightarrow>
        compute_file_hash L opn file_path = Inr (take 16 (hexdigest (sha256 L content))) \<and>
        length (take 16 (hexdigest (sha256 L content))) = 16 \<and>
        list_all is_hex (take 16 (hexdigest (sha256 L content))))"
  by (simp add: compute_data_hash_def compute_file_hash_def update_chunks_all
      length_hexdigest list_all_take list_all_hexdigest split: sum.split)

subsection \<open>Job Runner: the shape of a run\<close>

lemma jobs_assign_fields [simp]: "jobs (assign_fields r f w) = jobs w"
  by (simp add: assign_fields_def)

lemma heap_assign_fields [simp]: "heap (assign_fields r f w) r = f (heap w r)"
  by (simp add: assign_fields_def)

lemma with_jobs_lock_Some:
  "jobs (fst s) jid = Some r \<Longrightarrow>
   with_jobs_lock jid f s = Inr ((), (assign_fields r f (fst s), snd s @ [assign_fields r f (fst s)]))"
  by (simp add: with_jobs_lock_def Let_def)

lemma and_then_Inr: "m s = Inr (a, s') \<Longrightarrow> and_then m f s = f a s'"
  by (simp add: and_then_def)

lemma and_then_Inl: "m s = Inl es \<Longrightarrow> and_then m f s = Inl es"
  by (simp add: and_then_def)

lemma jobs_stage_worlds: "jobs (last (w # stage_worlds r sts w)) = jobs w"
  by (induction sts arbitrary: w) simp_all

lemma run_stages_Some:
  "jobs (fst s) jid = Some r \<Longrightarrow>
   run_stages jid sts s =
     Inr ((), (last (fst s # stage_worlds r sts (fst s)), snd s @ stage_worlds r sts (fst s)))"
proof (induction sts arbitrary: s)
  case Nil
  then show ?case by (simp add: raise_or_def)
next
  case (Cons st rest)
  let ?w = "assign_fields r (set_stage st) (fst s)"
  have "jobs (fst (?w, snd s @ [?w])) jid = Some r" using Cons.prems by simp
  from Cons.IH [OF this] Cons.prems show ?case
    by (simp add: and_then_def with_jobs_lock_Some)
qed

lemma quiet_refl [simp]: "quiet s s"
  by (simp add: quiet_def)

lemma quiet_trans: "quiet s s' \<Longrightarrow> quiet s' s'' \<Longrightarrow> quiet s s''"
  by (simp add: quiet_def)

lemma quiet_raise_or: "quiet_step (raise_or r)"
  by (simp add: quiet_step_def raise_or_def split: sum.split)

lemma quiet_predict_step: "quiet_step (predict_step E L bid ihash)"
  by (simp add: quiet_step_def predict_step_def raise_or_def quiet_def split: sum.split prod.split)

lemma quiet_mkdir_step: "quiet_step (mkdir_step E jid)"
  by (simp add: quiet_step_def mkdir_step_def quiet_def split: option.split)

lemma quiet_write_step: "quiet_step (write_step E jid name f)"
  by (simp add: quiet_step_def write_step_def quiet_def split: option.split)

lemma quiet_read_created_at: "quiet_step (read_created_at jid)"
  by (simp add: quiet_step_def read_created_at_def quiet_def split: option.split)

lemma completes_with_jobs_lock: "completes r jid (with_jobs_lock jid (mark_completed res))"
  unfolding completes_def
proof (intro allI impI)
  fix s :: rstate
  assume "jobs (fst s) jid = Some r"
  then have "with_jobs_lock jid (mark_completed res) s =
      Inr ((), (assign_fields r (mark_completed res) (fst s),
                snd s @ [assign_fields r (mark_completed res) (fst s)]))"
    by (rule with_jobs_lock_Some)
  moreover have "\<exists>res' w'. quiet s (w', snd s) \<and>
      (assign_fields r (mark_completed res) (fst s),
        snd s @ [assign_fields r (mark_completed res) (fst s)]) =
      (assign_fields r (mark_completed res') w',
        snd s @ [assign_fields r (mark_completed res') w'])"
    by (rule exI [of _ res], rule exI [of _ "fst s"]) simp
  ultimately show "case with_jobs_lock jid (mark_completed res) s of
      Inl (e, s') \<Rightarrow> quiet s s'
    | Inr (u, s') \<Rightarrow> \<exists>res w'. quiet s (w', snd s) \<and>
          s' = (assign_fields r (mark_completed res) w',
                snd s @ [assign_fields r (mark_completed res) w'])"
    by simp
qed

lemma completes_and_then:
  assumes m: "quiet_step m" and f: "\<And>a. completes r jid (f a)"
  shows "completes r jid (and_then m f)"
  unfolding completes_def
proof (intro allI impI)
  fix s :: rstate
  assume r: "jobs (fst s) jid = Some r"
  show "case and_then m f s of
      Inl (e, s') \<Rightarrow> quiet s s'
    | Inr (u, s') \<Rightarrow> \<exists>res w'. quiet s (w', snd s) \<and>
          s' = (assign_fields r (mark_completed res) w',
                snd s @ [assign_fields r (mark_completed res) w'])"
  proof (cases "m s")
    case (Inl es)
    with m [unfolded quiet_step_def, rule_format, of s] show ?thesis
      by (simp add: and_then_def split: prod.splits)
  next
    case (Inr as)
    obtain a s1 where as: "as = (a, s1)" by (cases as)
    from m [unfolded quiet_step_def, rule_format, of s] Inr as have q: "quiet s s1" by simp
    then have r1: "jobs (fst s1) jid = Some r" using r by (simp add: quiet_def)
    have eq: "and_then m f s = f a s1" using Inr as by (simp add: and_then_def)
    from f [of a, unfolded completes_def, rule_format, OF r1] q show ?thesis
      unfolding eq
      by (auto simp: quiet_def split: sum.splits prod.splits)
  qed
qed

lemma completes_finish_block: "completes r jid (finish_block E L ip it bid jid iid ihash)"
  unfolding finish_block_def Let_def
  by (intro completes_and_then completes_with_jobs_lock quiet_predict_step quiet_mkdir_step
      quiet_write_step quiet_read_created_at)



lemma heap_last_stage_worlds:
  "heap (last (w # stage_worlds r sts w)) r = last (heap w r # stage_jobs sts (heap w r))"
  by (induction sts arbitrary: w) simp_all

lemma try_block_cases:
  fixes w :: world and jid bid :: string and r :: nat
  assumes r: "jobs w jid = Some r"
  defines "w1 \<equiv> assign_fields r mark_processing w"
  defines "ws \<equiv> stage_worlds r (stages bid) w1"
  shows "(\<exists>e. try_block E L ip it bid jid iid (w, []) = Inl (e, (w1, [w1])))
       \<or> (\<exists>e w'. try_block E L ip it bid jid iid (w, []) = Inl (e, (w', w1 # ws))
              \<and> jobs w' = jobs w \<and> heap w' = heap (last (w1 # ws)))
       \<or> (\<exists>res w'. try_block E L ip it bid jid iid (w, []) =
              Inr ((), (assign_fields r (mark_completed res) w',
                        w1 # ws @ [assign_fields r (mark_completed res) w']))
              \<and> jobs w' = jobs w \<and> heap w' = heap (last (w1 # ws)))"
proof -
  have 1: "with_jobs_lock jid mark_processing (w, []) = Inr ((), (w1, [w1]))"
    using r by (simp add: with_jobs_lock_Some w1_def)
  have j1: "jobs w1 = jobs w" by (simp add: w1_def)
  define w6 where "w6 = last (w1 # ws)"
  have 3: "run_stages jid (stages bid) (w1, [w1]) = Inr ((), (w6, w1 # ws))"
    using run_stages_Some [of "(w1, [w1])" jid r "stages bid"] r j1
    by (simp add: ws_def w6_def)
  have j6: "jobs w6 = jobs w"
    using j1 jobs_stage_worlds [of w1 r "stages bid"] by (simp add: ws_def w6_def)
  show ?thesis
  proof (cases "compute_input_hash E L ip it")
    case (Inl e)
    then show ?thesis by (simp add: try_block_def and_then_def 1 raise_or_def)
  next
    case (Inr ihash)
    have eq: "try_block E L ip it bid jid iid (w, []) =
        finish_block E L ip it bid jid iid ihash (w6, w1 # ws)"
      by (simp add: try_block_def and_then_def 1 3 Inr raise_or_def)
    have "jobs (fst (w6, w1 # ws)) jid = Some r" using j6 r by simp
    from completes_finish_block [of r jid E L ip it bid iid ihash, unfolded completes_def,
        rule_format, OF this]
    show ?thesis
      unfolding eq w6_def [symmetric]
      by (auto simp: quiet_def j6 split: sum.splits prod.splits)
  qed
qed



subsection \<open>Job Runner: state machine and invariant\<close>






lemma job_trace_nonempty: "job_trace r w res \<noteq> []"
  by (simp add: job_trace_def)

lemma example_submitted_eq:
  "jobs example_submitted ''job-1'' = Some 0 \<and>
   status (heap example_submitted 0) = ''pending'' \<and>
   progress (heap example_submitted 0) = 0 \<and>
   error (heap example_submitted 0) = None \<and>
   results (heap example_submitted 0) = None"
  by (simp add: example_submitted_def start_inference_def BEHAVIOR_IDS_def example_env_def
      find_input_def SKELETONS_DIR_def example_world_def)






subsection \<open>Floats: rounding to nearest\<close>

lemma bits_0 [simp]: "bits 0 = 0"
  by (subst bits.simps) simp

lemma bits_1 [simp]: "bits (Suc 0) = Suc 0"
  by (subst bits.simps) simp

lemma bits_bounds: "0 < n \<Longrightarrow> 2 ^ (bits n - 1) \<le> n \<and> n < 2 ^ bits n"
proof (induction n rule: bits.induct)
  case (1 n)
  show ?case
  proof (cases "n div 2 = 0")
    case True
    with "1.prems" have "n = 1" by (simp add: div_eq_0_iff) 
    then show ?thesis by simp
  next
    case False
    then have pos: "0 < n div 2" by simp
    from "1.IH" [OF _ pos] "1.prems"
    have ih: "2 ^ (bits (n div 2) - 1) \<le> n div 2" "n div 2 < 2 ^ bits (n div 2)" by simp_all
    have b: "bits n = Suc (bits (n div 2))" using "1.prems" by (subst bits.simps) simp
    have bp: "0 < bits (n div 2)" using pos by (subst bits.simps) simp
    then obtain k where k: "bits (n div 2) = Suc k" by (cases "bits (n div 2)") simp_all
    from ih(1) have "2 * 2 ^ k \<le> 2 * (n div 2)" by (simp add: k)
    also have "\<dots> \<le> n" by simp
    finally have lo: "2 ^ (bits n - 1) \<le> n" by (simp add: b k)
    from ih(2) have "n div 2 + 1 \<le> 2 ^ bits (n div 2)" by simp
    then have "2 * (n div 2 + 1) \<le> 2 * 2 ^ bits (n div 2)" by simp
    moreover have "n < 2 * (n div 2 + 1)" by presburger
    ultimately have hi: "n < 2 ^ bits n" by (simp add: b)
    from lo hi show ?thesis by simp
  qed
qed

lemma powi2_pos [simp]: "0 < (2::rat) powi e"
  by (simp add: power_int_def)

lemma powi2_mono: "e \<le> e' \<Longrightarrow> (2::rat) powi e \<le> 2 powi e'"
  by (rule power_int_increasing) simp_all

lemma powi2_strict_mono: "e < e' \<Longrightarrow> (2::rat) powi e < 2 powi e'"
  by (rule power_int_strict_increasing) simp_all

lemma powi2_lessD: "(2::rat) powi a < 2 powi b \<Longrightarrow> a < b"
  using powi2_mono [of b a] by (cases "a < b") simp_all

lemma powi2_add: "(2::rat) powi (a + b) = 2 powi a * 2 powi b"
  by (simp add: power_int_add)

lemma powi2_diff: "(2::rat) powi (a - b) = 2 powi a / 2 powi b"
  by (simp add: power_int_diff)

lemma expo_unique:
  fixes x :: rat
  assumes "x \<noteq> 0" "2 powi e \<le> \<bar>x\<bar>" "\<bar>x\<bar> < 2 powi (e + 1)"
    and "2 powi e' \<le> \<bar>x\<bar>" "\<bar>x\<bar> < 2 powi (e' + 1)"
  shows "e = (e'::int)"
proof (rule ccontr)
  assume "e \<noteq> e'"
  then consider "e + 1 \<le> e'" | "e' + 1 \<le> e" by linarith
  then show False
  proof cases
    case 1
    from powi2_mono [OF 1] assms show False by linarith
  next
    case 2
    from powi2_mono [OF 2] assms show False by linarith
  qed
qed

lemma expo_bounds:
  assumes "x \<noteq> 0"
  shows "2 powi expo x \<le> \<bar>x\<bar> \<and> \<bar>x\<bar> < 2 powi (expo x + 1)"
proof -
  obtain n d where q: "quotient_of \<bar>x\<bar> = (n, d)" by (cases "quotient_of \<bar>x\<bar>")
  then have d: "0 < d" and x: "\<bar>x\<bar> = of_int n / of_int d"
    using quotient_of_denom_pos quotient_of_div by blast+
  have n: "0 < n"
  proof -
    have "0 < \<bar>x\<bar>" using assms by simp
    then have "0 < (of_int n :: rat) / of_int d" by (simp add: x)
    with d show ?thesis by (simp add: zero_less_divide_iff)
  qed
  define bn where "bn = bits (nat n)"
  define bd where "bd = bits (nat d)"
  define e where "e = int bn - int bd"
  from bits_bounds [of "nat n"] n
  have nb: "2 ^ (bn - 1) \<le> nat n" "nat n < 2 ^ bn" by (simp_all add: bn_def)
  from bits_bounds [of "nat d"] d
  have db: "2 ^ (bd - 1) \<le> nat d" "nat d < 2 ^ bd" by (simp_all add: bd_def)
  have bn0: "0 < bn" using nb n by (cases bn) simp_all
  have bd0: "0 < bd" using db d by (cases bd) simp_all
  have rn: "(2::rat) ^ (bn - 1) \<le> of_int n" "(of_int n :: rat) < 2 ^ bn"
  proof -
    have "(of_nat (2 ^ (bn - 1)) :: rat) \<le> of_nat (nat n)" using nb(1) by (simp only: of_nat_le_iff)
    then show "(2::rat) ^ (bn - 1) \<le> of_int n" using n by simp
    have "(of_nat (nat n) :: rat) < of_nat (2 ^ bn)" using nb(2) by (simp only: of_nat_less_iff)
    then show "(of_int n :: rat) < 2 ^ bn" using n by simp
  qed
  have rd: "(2::rat) ^ (bd - 1) \<le> of_int d" "(of_int d :: rat) < 2 ^ bd"
  proof -
    have "(of_nat (2 ^ (bd - 1)) :: rat) \<le> of_nat (nat d)" using db(1) by (simp only: of_nat_le_iff)
    then show "(2::rat) ^ (bd - 1) \<le> of_int d" using d by simp
    have "(of_nat (nat d) :: rat) < of_nat (2 ^ bd)" using db(2) by (simp only: of_nat_less_iff)
    then show "(of_int d :: rat) < 2 ^ bd" using d by simp
  qed
  have dpos: "(0::rat) < of_int d" using d by simp
  have up: "\<bar>x\<bar> < 2 powi (e + 1)"
  proof -
    have "(of_int n :: rat) < 2 ^ bn" by (rule rn)
    also have "(2::rat) ^ bn = 2 powi (e + 1) * 2 ^ (bd - 1)"
    proof -
      have "int bn = (e + 1) + int (bd - 1)" using bd0 by (simp add: e_def)
      then have "(2::rat) powi int bn = 2 powi ((e + 1) + int (bd - 1))" by simp
      then show ?thesis by (simp add: powi2_add)
    qed
    also have "\<dots> \<le> 2 powi (e + 1) * of_int d"
      using rd(1) by (simp add: mult_left_mono)
    finally have "(of_int n :: rat) / of_int d < 2 powi (e + 1)"
      using dpos by (simp add: pos_divide_less_eq)
    then show ?thesis by (simp add: x)
  qed
  have lo: "2 powi (e - 1) \<le> \<bar>x\<bar>"
  proof -
    have "2 powi (e - 1) * (of_int d :: rat) \<le> 2 powi (e - 1) * 2 ^ bd"
      using rd(2) by (simp add: mult_left_mono)
    also have "\<dots> = 2 ^ (bn - 1)"
    proof -
      have "int (bn - 1) = (e - 1) + int bd" using bn0 by (simp add: e_def)
      then have "(2::rat) powi int (bn - 1) = 2 powi ((e - 1) + int bd)" by simp
      then show ?thesis by (simp add: powi2_add)
    qed
    also have "\<dots> \<le> of_int n" by (rule rn)
    finally have "2 powi (e - 1) \<le> (of_int n :: rat) / of_int d"
      using dpos by (simp add: pos_le_divide_eq)
    then show ?thesis by (simp add: x)
  qed
  have ex: "expo x = (if 2 powi e \<le> \<bar>x\<bar> then e else e - 1)"
    by (simp add: expo_def q bn_def bd_def e_def Let_def)
  show ?thesis
  proof (cases "2 powi e \<le> \<bar>x\<bar>")
    case True
    with up ex show ?thesis by simp
  next
    case False
    with lo ex show ?thesis by simp
  qed
qed

lemma expo_eqI:
  "x \<noteq> 0 \<Longrightarrow> 2 powi e \<le> \<bar>x\<bar> \<Longrightarrow> \<bar>x\<bar> < 2 powi (e + 1) \<Longrightarrow> expo x = e"
  using expo_bounds [of x] expo_unique [of x "expo x" e] by simp


lemma floor_rat_numeral_div [simp]:
  "\<lfloor>(numeral a :: rat) / numeral b\<rfloor> = numeral a div numeral b"
  using floor_divide_of_int_eq [of "numeral a" "numeral b", where ?'a = rat] by simp

lemma rne_between: "\<lfloor>x\<rfloor> \<le> rne x \<and> rne x \<le> \<lfloor>x\<rfloor> + 1"
  by (simp add: rne_def Let_def)

lemma rne_of_int [simp]: "rne (of_int n) = n"
  by (simp add: rne_def)

lemma rne_mono:
  assumes "x \<le> y"
  shows "rne x \<le> rne y"
proof -
  have f: "\<lfloor>x\<rfloor> \<le> \<lfloor>y\<rfloor>" using assms by (rule floor_mono)
  show ?thesis
  proof (cases "\<lfloor>x\<rfloor> = \<lfloor>y\<rfloor>")
    case True
    have "x - of_int \<lfloor>x\<rfloor> \<le> y - of_int \<lfloor>y\<rfloor>" using assms True by simp
    then show ?thesis unfolding rne_def Let_def True by auto
  next
    case False
    with f have "\<lfloor>x\<rfloor> + 1 \<le> \<lfloor>y\<rfloor>" by simp
    with rne_between [of x] rne_between [of y] show ?thesis by linarith
  qed
qed

lemma rne_ge_int: "of_int n \<le> x \<Longrightarrow> n \<le> rne x"
  using rne_mono [of "of_int n" x] by simp

lemma rne_le_int: "x \<le> of_int n \<Longrightarrow> rne x \<le> n"
  using rne_mono [of x "of_int n"] by simp

lemma fl_binade:
  assumes "0 < x" "2 powi e \<le> x" "x < 2 powi (e + 1)"
  shows "fl x = of_int (rne (x / 2 powi (e - 52))) * 2 powi (e - 52)"
proof -
  have "expo x = e" using assms by (intro expo_eqI) simp_all
  with assms(1) show ?thesis by (simp add: fl_def Let_def)
qed

lemma fl_nonneg: "0 \<le> x \<Longrightarrow> 0 \<le> fl x"
proof -
  assume x: "0 \<le> x"
  have "0 \<le> rne (x / 2 powi (expo x - 52))"
    by (rule rne_ge_int) (use x in simp)
  then show ?thesis by (simp add: fl_def Let_def)
qed

text \<open>Rounding does not cross a float: a float above stays above.\<close>

lemma fl_le_float:
  assumes x: "0 < x" "x \<le> b"
    and b: "b = of_int m * 2 powi (eb - 52)" "2 powi eb \<le> b" "b < 2 powi (eb + 1)"
  shows "fl x \<le> b"
proof -
  define e where "e = expo x"
  define u :: rat where "u = 2 powi (e - 52)"
  have u: "0 < u" by (simp add: u_def)
  from expo_bounds [of x] x have ex: "2 powi e \<le> x" "x < 2 powi (e + 1)"
    by (simp_all add: e_def)
  have flx: "fl x = of_int (rne (x / u)) * u"
    using x by (simp add: fl_def Let_def e_def u_def)
  have "2 powi e < (2::rat) powi (eb + 1)" using ex(1) x(2) b(3) by linarith
  then have "e < eb + 1" by (rule powi2_lessD)
  then consider "eb = e" | "e + 1 \<le> eb" by linarith
  then show ?thesis
  proof cases
    case 1
    then have "b / u = of_int m" by (simp add: b(1) u_def)
    moreover have "x / u \<le> b / u" using x(2) u by (simp add: divide_right_mono)
    ultimately have "rne (x / u) \<le> m" by (intro rne_le_int) simp
    then have "of_int (rne (x / u)) * u \<le> of_int m * u"
      using u by (simp add: mult_right_mono)
    also have "of_int m * u = b" using 1 by (simp add: b(1) u_def)
    finally show ?thesis by (simp add: flx)
  next
    case 2
    have e53: "e + 1 = 53 + (e - 52)" by simp
    have p53: "(2::rat) powi (e + 1) = of_int (2 ^ 53) * u"
      by (simp only: e53 powi2_add u_def) simp
    have "x / u < 2 powi (e + 1) / u" using ex(2) u by (simp add: divide_strict_right_mono)
    also have "2 powi (e + 1) / u = of_int (2 ^ 53)"
      using u by (simp only: p53) simp
    finally have "x / u \<le> of_int (2 ^ 53)" by simp
    then have "rne (x / u) \<le> 2 ^ 53" by (rule rne_le_int)
    then have "of_int (rne (x / u)) * u \<le> of_int (2 ^ 53) * u"
      using u by (simp add: mult_right_mono del: of_int_power of_int_numeral)
    also have "of_int (2 ^ 53) * u = 2 powi (e + 1)" by (simp only: p53)
    also have "\<dots> \<le> 2 powi eb" using 2 by (rule powi2_mono)
    also have "\<dots> \<le> b" by (rule b(2))
    finally show ?thesis by (simp add: flx)
  qed
qed

text \<open>Within one binade rounding is monotone between floats.\<close>

lemma fl_binade_bounds:
  assumes x: "2 powi e \<le> x" "x < 2 powi (e + 1)"
    and a: "of_int ma * 2 powi (e - 52) \<le> x" and b: "x \<le> of_int mb * 2 powi (e - 52)"
  shows "of_int ma * 2 powi (e - 52) \<le> fl x \<and> fl x \<le> of_int mb * 2 powi (e - 52)"
proof -
  define u :: rat where "u = 2 powi (e - 52)"
  have u: "0 < u" by (simp add: u_def)
  have x0: "0 < x" using x(1) powi2_pos [of e] by linarith
  have flx: "fl x = of_int (rne (x / u)) * u"
    using fl_binade [OF x0 x] by (simp add: u_def)
  have "of_int ma \<le> x / u" using a u by (simp add: pos_le_divide_eq u_def)
  then have "ma \<le> rne (x / u)" by (rule rne_ge_int)
  then have lo: "of_int ma * u \<le> of_int (rne (x / u)) * u"
    using u by (simp add: mult_right_mono)
  have "x / u \<le> of_int mb" using b u by (simp add: pos_divide_le_eq u_def)
  then have "rne (x / u) \<le> mb" by (rule rne_le_int)
  then have hi: "of_int (rne (x / u)) * u \<le> of_int mb * u"
    using u by (simp add: mult_right_mono)
  from lo hi show ?thesis by (simp add: flx u_def)
qed

text \<open>A 53-bit fraction \<open>k / 2 ^ 53\<close> is a float.\<close>

lemma fl_fraction:
  assumes "k < 2 ^ 53"
  shows "fl (of_nat k / 2 ^ 53) = of_nat k / 2 ^ 53"
proof (cases "k = 0")
  case True
  then show ?thesis by (simp add: fl_def)
next
  case False
  define x :: rat where "x = of_nat k / 2 ^ 53"
  define e where "e = expo x"
  have x0: "0 < x" using False by (simp add: x_def)
  have x1: "x < 1"
  proof -
    have "(of_nat k :: rat) < of_nat (2 ^ 53)" using assms by (simp only: of_nat_less_iff)
    then show ?thesis by (simp add: x_def)
  qed
  from expo_bounds [of x] x0 have ex: "2 powi e \<le> x" "x < 2 powi (e + 1)"
    by (simp_all add: e_def)
  have "2 powi e < (2::rat) powi 0" using ex(1) x1 by simp
  then have e: "e < 0" by (rule powi2_lessD)
  define n where "n = nat (- 1 - e)"
  have n: "int n = - 1 - e" using e by (simp add: n_def)
  have "x / 2 powi (e - 52) = of_nat k * (2 powi (- 53) / 2 powi (e - 52))"
    by (simp add: x_def power_int_minus_divide)
  also have "2 powi (- 53) / (2::rat) powi (e - 52) = 2 powi (int n)"
  proof -
    have "(- 53) - (e - 52) = int n" by (simp add: n)
    then have "(2::rat) powi (int n) = 2 powi ((- 53) - (e - 52))" by simp
    then show ?thesis by (simp only: powi2_diff)
  qed
  finally have xu: "x / 2 powi (e - 52) = of_int (int k * 2 ^ n)" by simp
  have "fl x = of_int (rne (x / 2 powi (e - 52))) * 2 powi (e - 52)"
    using x0 by (simp add: fl_def Let_def e_def)
  also have "\<dots> = x / 2 powi (e - 52) * 2 powi (e - 52)"
    by (simp only: xu rne_of_int)
  also have "\<dots> = x" by simp
  finally show ?thesis by (simp add: x_def)
qed

subsection \<open>Floats: the constants of the Prediction Generator\<close>

lemma fl_65: "fl (65 / 100) = 5854679515581645 / 9007199254740992"
  by (subst fl_binade [where e = "- 1"]) (simp_all add: rne_def Let_def power_int_minus_divide)

lemma fl_95: "fl (95 / 100) = 8556839292003942 / 9007199254740992"
  by (subst fl_binade [where e = "- 1"]) (simp_all add: rne_def Let_def power_int_minus_divide)

lemma fl_20: "fl (2 / 10) = 7205759403792794 / 36028797018963968"
  by (subst fl_binade [where e = "- 3"]) (simp_all add: rne_def Let_def power_int_minus_divide)

lemma fl_35: "fl (35 / 100) = 6305039478318694 / 18014398509481984"
  by (subst fl_binade [where e = "- 2"]) (simp_all add: rne_def Let_def power_int_minus_divide)

lemma fl_45: "fl (45 / 100) = 8106479329266893 / 18014398509481984"
  by (subst fl_binade [where e = "- 2"]) (simp_all add: rne_def Let_def power_int_minus_divide)

lemma fl_55: "fl (7205759403792794 / 36028797018963968 + 6305039478318694 / 18014398509481984)
    = 4953959590107546 / 9007199254740992"
  by (subst fl_binade [where e = "- 1"]) (simp_all add: rne_def Let_def power_int_minus_divide)

lemma fl_100: "fl (4953959590107546 / 9007199254740992 + 8106479329266893 / 18014398509481984) = 1"
  by (subst fl_binade [where e = 0]) (simp_all add: rne_def Let_def power_int_minus_divide)

lemma fl_30: "fl (8556839292003942 / 9007199254740992 - 5854679515581645 / 9007199254740992)
    = 2702159776422297 / 9007199254740992"
  by (subst fl_binade [where e = "- 2"]) (simp_all add: rne_def Let_def power_int_minus_divide)

lemma cum_weights_eq:
  "accumulate [fl (2 / 10), fl (35 / 100), fl (45 / 100)] =
     [7205759403792794 / 36028797018963968, 4953959590107546 / 9007199254740992, 1]"
proof -
  have "accumulate [fl (2 / 10), fl (35 / 100), fl (45 / 100)] =
      [fl (2 / 10), fl (fl (2 / 10) + fl (35 / 100)),
       fl (fl (fl (2 / 10) + fl (35 / 100)) + fl (45 / 100))]"
    by (simp add: accumulate_def)
  also have "\<dots> = [7205759403792794 / 36028797018963968,
      4953959590107546 / 9007199254740992, 1]"
    by (simp only: fl_20 fl_35 fl_45 fl_55 fl_100)
  finally show ?thesis .
qed

lemma fl_1: "fl 1 = 1"
  by (subst fl_binade [where e = 0]) (simp_all add: rne_def Let_def power_int_minus_divide)

lemma bisect_done: "hi \<le> lo \<Longrightarrow> bisect a x lo hi = lo"
  by (subst bisect.simps) simp

lemma bisect_3:
  "bisect [c1, c2, c3] x 0 2 = (if x < c2 then (if x < c1 then 0 else 1) else 2)"
proof -
  have a: "bisect [c1, c2, c3] x 0 (Suc 0) = (if x < c1 then 0 else 1)"
    by (subst bisect.simps) (simp add: bisect_done)
  have b: "bisect [c1, c2, c3] x 0 2 =
      (if x < c2 then bisect [c1, c2, c3] x 0 (Suc 0) else bisect [c1, c2, c3] x 2 2)"
    by (subst bisect.simps) (simp add: Let_def numeral_2_eq_2)
  show ?thesis by (simp add: a b bisect_done)
qed

lemma random_float_range:
  "0 \<le> fst (random_float L g) \<and> fst (random_float L g) < 1 \<and>
   fl (fst (random_float L g)) = fst (random_float L g)"
proof -
  obtain k g' where k: "rnd_random L g = (k, g')" by (cases "rnd_random L g")
  define n where "n = unat k"
  have lt: "n < 2 ^ 53" using unsigned_less [of k, where ?'a = nat] by (simp add: n_def)
  have r: "fst (random_float L g) = of_nat n / 2 ^ 53" by (simp add: random_float_def k n_def)
  have "(of_nat n :: rat) < of_nat (2 ^ 53)" using lt by (simp only: of_nat_less_iff)
  then have "(of_nat n :: rat) / 2 ^ 53 < 1" by simp
  moreover have "(0::rat) \<le> of_nat n / 2 ^ 53" by simp
  ultimately show ?thesis using fl_fraction [OF lt] by (simp only: r)
qed

subsection \<open>The draws of the Prediction Generator\<close>

lemma fl_binade_mono:
  assumes "2 powi e \<le> x" "x \<le> y" "y < 2 powi (e + 1)"
  shows "fl x \<le> fl y"
proof -
  define u :: rat where "u = 2 powi (e - 52)"
  have u: "0 < u" by (simp add: u_def)
  have x0: "0 < x" using assms(1) powi2_pos [of e] by linarith
  have y0: "0 < y" using x0 assms(2) by linarith
  have fx: "fl x = of_int (rne (x / u)) * u"
    using fl_binade [OF x0 assms(1)] assms by (simp add: u_def)
  have fy: "fl y = of_int (rne (y / u)) * u"
    using fl_binade [OF y0 _ assms(3)] assms by (simp add: u_def)
  have "x / u \<le> y / u" using assms(2) u by (simp add: divide_right_mono)
  then have "rne (x / u) \<le> rne (y / u)" by (rule rne_mono)
  then show ?thesis using u by (simp add: fx fy mult_right_mono)
qed

lemma choices_eq:
  "choices L [0::int, 1, 2] [fl (2 / 10), fl (35 / 100), fl (45 / 100)] g =
     (Inr [if fst (random_float L g) < 4953959590107546 / 9007199254740992
           then (if fst (random_float L g) < 7205759403792794 / 36028797018963968 then 0 else 1)
           else 2],
      snd (random_float L g))"
proof -
  obtain r g' where rg: "random_float L g = (r, g')" by (cases "random_float L g")
  have fr: "fl r = r" using random_float_range [of L g] by (simp add: rg)
  have t: "fl (last [7205759403792794 / 36028797018963968,
      4953959590107546 / 9007199254740992, 1] + 0) = 1"
    by (simp add: fl_1)
  have n: "length [0::int, 1, 2] - 1 = 2" by simp
  have l: "length [7205759403792794 / 36028797018963968,
      4953959590107546 / 9007199254740992, 1::rat] = length [0::int, 1, 2]" by simp
  show ?thesis
    unfolding choices_def cum_weights_eq Let_def t n
    by (simp only: l rg fr bisect_3 mult_1_right prod.case fst_conv snd_conv) simp
qed

lemma uniform_bounds:
  "fl (65 / 100) \<le> fst (uniform L (fl (65 / 100)) (fl (95 / 100)) g) \<and>
   fst (uniform L (fl (65 / 100)) (fl (95 / 100)) g) \<le> fl (95 / 100)"
proof -
  obtain r g' where rg: "random_float L g = (r, g')" by (cases "random_float L g")
  have r: "0 \<le> r" "r < 1" using random_float_range [of L g] by (simp_all add: rg)
  define d :: rat where "d = 2702159776422297 / 9007199254740992"
  define p where "p = fl (d * r)"
  have u: "fst (uniform L (fl (65 / 100)) (fl (95 / 100)) g) =
      fl (5854679515581645 / 9007199254740992 + p)"
    unfolding uniform_def rg by (simp only: fl_65 fl_95 fl_30 p_def d_def prod.case fst_conv)
  have p0: "0 \<le> p" unfolding p_def by (rule fl_nonneg) (use r in \<open>simp add: d_def\<close>)
  have p1: "p \<le> d"
  proof (cases "r = 0")
    case True
    then show ?thesis by (simp add: p_def fl_def d_def)
  next
    case False
    with r have "0 < d * r" by (simp add: d_def)
    moreover have "d * r \<le> d" using r by (simp add: d_def)
    moreover have "d = of_int 5404319552844594 * 2 powi (- 2 - 52)"
      by (simp add: d_def power_int_minus_divide)
    moreover have "2 powi (- 2) \<le> d" by (simp add: d_def power_int_minus_divide)
    moreover have "d < 2 powi (- 2 + 1)" by (simp add: d_def power_int_minus_divide)
    ultimately show ?thesis unfolding p_def by (rule fl_le_float)
  qed
  define x where "x = 5854679515581645 / 9007199254740992 + p"
  have "2 powi (- 1) \<le> x" using p0 by (simp add: x_def power_int_minus_divide)
  moreover have "x < 2 powi (- 1 + 1)" using p1 by (simp add: x_def d_def)
  moreover have "of_int 5854679515581645 * 2 powi (- 1 - 52) \<le> x"
    using p0 by (simp add: x_def power_int_minus_divide)
  moreover have "x \<le> of_int 8556839292003942 * 2 powi (- 1 - 52)"
    using p1 by (simp add: x_def d_def power_int_minus_divide)
  ultimately have "of_int 5854679515581645 * 2 powi (- 1 - 52) \<le> fl x \<and>
      fl x \<le> of_int 8556839292003942 * 2 powi (- 1 - 52)"
    by (rule fl_binade_bounds)
  then have "5854679515581645 / 9007199254740992 \<le> fl x \<and>
      fl x \<le> 8556839292003942 / 9007199254740992"
    by (simp add: power_int_minus_divide)
  moreover have "fst (uniform L (fl (65 / 100)) (fl (95 / 100)) g) = fl x"
    by (simp only: u x_def)
  ultimately show ?thesis
    by (simp only: fl_65 fl_95)
qed

lemma py_round_bounds:
  assumes "fl (65 / 100) \<le> c" "c \<le> fl (95 / 100)"
  shows "6500 \<le> rne (c * 10 ^ 4) \<and> rne (c * 10 ^ 4) \<le> 9500 \<and>
    fl (65 / 100) \<le> py_round c 4 \<and> py_round c 4 \<le> fl (95 / 100)"
proof -
  define n where "n = rne (c * 10 ^ 4)"
  have a: "5854679515581645 / 9007199254740992 \<le> c" using assms(1) unfolding fl_65 .
  have b: "c \<le> 8556839292003942 / 9007199254740992" using assms(2) unfolding fl_95 .
  have "of_int 6500 \<le> c * 10 ^ 4" using a by simp
  then have lo: "6500 \<le> n" unfolding n_def by (rule rne_ge_int)
  have "c * 10 ^ 4 \<le> of_int 9500" using b by simp
  then have hi: "n \<le> 9500" unfolding n_def by (rule rne_le_int)
  define q :: rat where "q = of_int n / 10 ^ 4"
  have q: "65 / 100 \<le> q" "q \<le> 95 / 100"
  proof -
    have "(of_int 6500 :: rat) \<le> of_int n" using lo by (simp only: of_int_le_iff)
    then show "65 / 100 \<le> q" by (simp add: q_def)
    have "(of_int n :: rat) \<le> of_int 9500" using hi by (simp only: of_int_le_iff)
    then show "q \<le> 95 / 100" by (simp add: q_def)
  qed
  have "fl (65 / 100) \<le> fl q"
    by (rule fl_binade_mono [where e = "- 1"]) (use q in \<open>simp_all add: power_int_minus_divide\<close>)
  moreover have "fl q \<le> fl (95 / 100)"
    by (rule fl_binade_mono [where e = "- 1"]) (use q in \<open>simp_all add: power_int_minus_divide\<close>)
  ultimately show ?thesis using lo hi by (simp add: py_round_def n_def q_def)
qed

subsection \<open>The Prediction Generator\<close>

lemma generate_dummy_prediction_eq:
  "generate_dummy_prediction L lm bid ih g0 =
     (let g1 = rnd_seed L (py_hash L (bid @ ''_'' @ ih));
          u = fst (random_float L g1);
          g2 = snd (random_float L g1);
          p = (if u < 4953959590107546 / 9007199254740992
               then (if u < 7205759403792794 / 36028797018963968 then 0 else 1)
               else 2);
          behavior = get_or lm bid \<lparr>labels = None, labels_es = None\<rparr>
      in (Inr \<lparr>p_behavior_id = bid,
                pred = p,
                confidence = py_round (fst (uniform L (fl (65 / 100)) (fl (95 / 100)) g2)) 4,
                rubric_text =
                  get_or (case labels behavior of None \<Rightarrow> [] | Some d \<Rightarrow> d) (str_int p) [],
                rubric_text_es =
                  get_or (case labels_es behavior of None \<Rightarrow> [] | Some d \<Rightarrow> d) (str_int p) []\<rparr>,
          snd (uniform L (fl (65 / 100)) (fl (95 / 100)) g2)))"
  unfolding generate_dummy_prediction_def Let_def choices_eq
  by (simp only: prod.case sum.case list.case case_prod_beta fst_conv snd_conv)

lemma threshold_20: "\<bar>fl (2 / 10) - 2 / 10\<bar> \<le> 1 / 2 ^ 54"
  unfolding fl_20 by simp

lemma threshold_55: "\<bar>fl (fl (2 / 10) + fl (35 / 100)) - 55 / 100\<bar> \<le> 1 / 2 ^ 53"
  unfolding fl_20 fl_35 fl_55 by simp

lemma confidence_decimal:
  assumes "fl (65 / 100) \<le> c" "c \<le> fl (95 / 100)"
  shows "\<exists>n. 6500 \<le> n \<and> n \<le> 9500 \<and> py_round c 4 = fl (of_int n / 10 ^ 4)"
  using py_round_bounds [OF assms] by (intro exI [of _ "rne (c * 10 ^ 4)"]) (simp add: py_round_def)

text \<open>
  C5. For every behavior identifier, fingerprint and generator state the Prediction
  Generator returns a prediction whose score is 0, 1 or 2, chosen by the first draw \<open>u\<close>
  of the seeded generator against the cumulative weights (0 below 0.2, 1 below 0.55, else
  2; the two float thresholds are within \<open>2 ^ - 54\<close> and \<open>2 ^ - 53\<close> of 0.2 and 0.55),
  and whose confidence is \<open>uniform(0.65, 0.95)\<close> on the second draw rounded to 4 decimal
  places: the float of some \<open>n / 10000\<close> with \<open>6500 \<le> n \<le> 9500\<close>, between the floats
  0.65 and 0.95 and between the numbers 0.65 and 0.95.
\<close>

theorem prediction_score_and_confidence:
  "\<exists>p g'. generate_dummy_prediction L lm bid ih g = (Inr p, g') \<and>
     pred p \<in> {0, 1, 2} \<and>
     pred p = (let u = fst (random_float L (rnd_seed L (py_hash L (bid @ ''_'' @ ih))))
               in if u < fl (2 / 10) then 0
                  else if u < fl (fl (2 / 10) + fl (35 / 100)) then 1 else 2) \<and>
     \<bar>fl (2 / 10) - 2 / 10\<bar> \<le> 1 / 2 ^ 54 \<and>
     \<bar>fl (fl (2 / 10) + fl (35 / 100)) - 55 / 100\<bar> \<le> 1 / 2 ^ 53 \<and>
     confidence p =
       py_round (fst (uniform L (fl (65 / 100)) (fl (95 / 100))
         (snd (random_float L (rnd_seed L (py_hash L (bid @ ''_'' @ ih))))))) 4 \<and>
     (\<exists>n. 6500 \<le> n \<and> n \<le> 9500 \<and> confidence p = fl (of_int n / 10 ^ 4)) \<and>
     fl (65 / 100) \<le> confidence p \<and> confidence p \<le> fl (95 / 100) \<and>
     65 / 100 \<le> confidence p \<and> confidence p \<le> 95 / 100"
proof -
  define g1 where "g1 = rnd_seed L (py_hash L (bid @ ''_'' @ ih))"
  define u where "u = fst (random_float L g1)"
  define c where "c = fst (uniform L (fl (65 / 100)) (fl (95 / 100)) (snd (random_float L g1)))"
  define p :: int where "p = (if u < 4953959590107546 / 9007199254740992
               then (if u < 7205759403792794 / 36028797018963968 then 0 else 1) else 2)"
  obtain pr g' where eq: "generate_dummy_prediction L lm bid ih g = (Inr pr, g')"
    and pp: "pred pr = p" and cc: "confidence pr = py_round c 4"
    unfolding generate_dummy_prediction_eq Let_def p_def u_def c_def g1_def by simp
  have cb: "fl (65 / 100) \<le> c" "c \<le> fl (95 / 100)"
    using uniform_bounds [of L "snd (random_float L g1)"] by (simp_all add: c_def)
  note rb = py_round_bounds [OF cb]
  have p3: "p \<in> {0, 1, 2}" by (simp add: p_def)
  have pw: "p = (if u < fl (2 / 10) then 0
                  else if u < fl (fl (2 / 10) + fl (35 / 100)) then 1 else 2)"
    unfolding fl_20 fl_35 fl_55 p_def by simp
  have lo: "(65 / 100 :: rat) \<le> fl (65 / 100)" unfolding fl_65 by simp
  have hi: "fl (95 / 100) \<le> (95 / 100 :: rat)" unfolding fl_95 by simp
  have r1: "65 / 100 \<le> py_round c 4" using lo rb by linarith
  have r2: "py_round c 4 \<le> 95 / 100" using hi rb by linarith
  show ?thesis
    apply (rule exI [of _ pr], rule exI [of _ g'])
    apply (simp only: eq pp cc Let_def)
    apply (intro conjI refl p3 threshold_20 threshold_55 confidence_decimal [OF cb] r1 r2)
    using pw rb apply (simp_all only: u_def g1_def c_def)
    done
qed

text \<open>
  C9. The Prediction Generator returns a prediction for every behavior identifier,
  fingerprint and generator state: none of the errors of \<open>random.choices\<close> or of the
  indexing is reached. The score is 0, 1 or 2 and the confidence lies between the floats
  0.65 and 0.95. A behavior identifier absent from the label map gives two empty rubric
  strings, and so does, for either language, an entry without that language's labels or
  without a label for the score drawn.
\<close>

theorem prediction_never_fails:
  "\<exists>p g'. generate_dummy_prediction L lm bid ih g = (Inr p, g') \<and>
     p_behavior_id p = bid \<and>
     pred p \<in> {0, 1, 2} \<and>
     fl (65 / 100) \<le> confidence p \<and> confidence p \<le> fl (95 / 100) \<and>
     (map_of lm bid = None \<longrightarrow> rubric_text p = [] \<and> rubric_text_es p = []) \<and>
     (\<forall>b. map_of lm bid = Some b \<longrightarrow>
        (labels b = None \<longrightarrow> rubric_text p = []) \<and>
        (labels_es b = None \<longrightarrow> rubric_text_es p = []) \<and>
        (\<forall>d. labels b = Some d \<and> map_of d (str_int (pred p)) = None \<longrightarrow> rubric_text p = []) \<and>
        (\<forall>d. labels_es b = Some d \<and> map_of d (str_int (pred p)) = None
           \<longrightarrow> rubric_text_es p = []))"
proof -
  define g1 where "g1 = rnd_seed L (py_hash L (bid @ ''_'' @ ih))"
  define c where "c = fst (uniform L (fl (65 / 100)) (fl (95 / 100)) (snd (random_float L g1)))"
  define behavior where "behavior = get_or lm bid \<lparr>labels = None, labels_es = None\<rparr>"
  obtain pr g' where eq: "generate_dummy_prediction L lm bid ih g = (Inr pr, g')"
    and pb: "p_behavior_id pr = bid"
    and pp: "pred pr \<in> {0, 1, 2}" and cc: "confidence pr = py_round c 4"
    and rt: "rubric_text pr =
       get_or (case labels behavior of None \<Rightarrow> [] | Some d \<Rightarrow> d) (str_int (pred pr)) []"
    and re: "rubric_text_es pr =
       get_or (case labels_es behavior of None \<Rightarrow> [] | Some d \<Rightarrow> d) (str_int (pred pr)) []"
    unfolding generate_dummy_prediction_eq Let_def c_def g1_def behavior_def by simp
  have cb: "fl (65 / 100) \<le> c" "c \<le> fl (95 / 100)"
    using uniform_bounds [of L "snd (random_float L g1)"] by (simp_all add: c_def)
  note rb = py_round_bounds [OF cb]
  have unknown: "map_of lm bid = None \<longrightarrow> rubric_text pr = [] \<and> rubric_text_es pr = []"
    by (simp add: rt re behavior_def get_or_def)
  have known: "\<forall>b. map_of lm bid = Some b \<longrightarrow>
        (labels b = None \<longrightarrow> rubric_text pr = []) \<and>
        (labels_es b = None \<longrightarrow> rubric_text_es pr = []) \<and>
        (\<forall>d. labels b = Some d \<and> map_of d (str_int (pred pr)) = None \<longrightarrow> rubric_text pr = []) \<and>
        (\<forall>d. labels_es b = Some d \<and> map_of d (str_int (pred pr)) = None
           \<longrightarrow> rubric_text_es pr = [])"
    by (simp add: rt re behavior_def get_or_def)
  show ?thesis
    apply (rule exI [of _ pr], rule exI [of _ g'])
    using eq pb pp rb unknown known apply (simp only: cc)
    done
qed

theorem prediction_never_fails_witness:
  "map_of (LABEL_MAP example_env) ''UNKNOWN'' = None \<and>
   map_of [(''B2'', \<lparr>labels = None, labels_es = Some [(''7'', ''siete'')]\<rparr>)] ''B2''
     = Some \<lparr>labels = None, labels_es = Some [(''7'', ''siete'')]\<rparr> \<and>
   (\<exists>p g'. generate_dummy_prediction example_lib (LABEL_MAP example_env) ''UNKNOWN''
       ''0123456789abcdef'' (rng example_world) = (Inr p, g') \<and>
      rubric_text p = [] \<and> rubric_text_es p = []) \<and>
   (\<exists>p g'. generate_dummy_prediction example_lib
       [(''B2'', \<lparr>labels = None, labels_es = Some [(''7'', ''siete'')]\<rparr>)] ''B2''
       ''0123456789abcdef'' (rng example_world) = (Inr p, g') \<and>
      rubric_text p = [] \<and> rubric_text_es p = [])"
proof -
  have a: "map_of (LABEL_MAP example_env) ''UNKNOWN'' = None"
    by (simp add: example_env_def)
  have b: "map_of [(''B2'', \<lparr>labels = None, labels_es = Some [(''7'', ''siete'')]\<rparr>)] ''B2''
     = Some \<lparr>labels = None, labels_es = Some [(''7'', ''siete'')]\<rparr>"
    by simp
  have s: "map_of [(''7'', ''siete'')] (str_int 0) = None"
      "map_of [(''7'', ''siete'')] (str_int 1) = None"
      "map_of [(''7'', ''siete'')] (str_int 2) = None"
    by (simp_all add: str_int_def str_nat.simps)
  from prediction_never_fails [of example_lib "LABEL_MAP example_env" "''UNKNOWN''"
      "''0123456789abcdef''" "rng example_world"] a
  have 1: "\<exists>p g'. generate_dummy_prediction example_lib (LABEL_MAP example_env) ''UNKNOWN''
       ''0123456789abcdef'' (rng example_world) = (Inr p, g') \<and>
      rubric_text p = [] \<and> rubric_text_es p = []"
    by blast
  from prediction_never_fails [of example_lib
      "[(''B2'', \<lparr>labels = None, labels_es = Some [(''7'', ''siete'')]\<rparr>)]" "''B2''"
      "''0123456789abcdef''" "rng example_world"]
  obtain p g' where p: "generate_dummy_prediction example_lib
       [(''B2'', \<lparr>labels = None, labels_es = Some [(''7'', ''siete'')]\<rparr>)] ''B2''
       ''0123456789abcdef'' (rng example_world) = (Inr p, g')"
    "pred p \<in> {0, 1, 2}"
    "\<forall>b. map_of [(''B2'', \<lparr>labels = None, labels_es = Some [(''7'', ''siete'')]\<rparr>)] ''B2'' = Some b \<longrightarrow>
        (labels b = None \<longrightarrow> rubric_text p = []) \<and>
        (labels_es b = None \<longrightarrow> rubric_text_es p = []) \<and>
        (\<forall>d. labels b = Some d \<and> map_of d (str_int (pred p)) = None \<longrightarrow> rubric_text p = []) \<and>
        (\<forall>d. labels_es b = Some d \<and> map_of d (str_int (pred p)) = None
           \<longrightarrow> rubric_text_es p = [])"
    by blast
  from p(2) s have "map_of [(''7'', ''siete'')] (str_int (pred p)) = None" by auto
  with p(3) b have "rubric_text p = [] \<and> rubric_text_es p = []" by simp
  with p(1) have 2: "\<exists>p g'. generate_dummy_prediction example_lib
       [(''B2'', \<lparr>labels = None, labels_es = Some [(''7'', ''siete'')]\<rparr>)] ''B2''
       ''0123456789abcdef'' (rng example_world) = (Inr p, g') \<and>
      rubric_text p = [] \<and> rubric_text_es p = []"
    by blast
  from a b 1 2 show ?thesis by blast
qed


subsection \<open>Job Runner: the successful run\<close>

lemma finish_block_success:
  assumes r: "jobs (fst s) jid = Some r"
    and ok: "mkdir_error E jid = None" "write_error E jid ''results.json'' = None"
      "write_error E jid ''metadata.json'' = None"
  shows "\<exists>res w'. finish_block E L ip it bid jid iid ih s =
      Inr ((), (assign_fields r (mark_completed res) w',
                snd s @ [assign_fields r (mark_completed res) w']))"
proof -
  obtain p g where p: "generate_dummy_prediction L (LABEL_MAP E) bid ih (rng (fst s)) = (Inr p, g)"
    by (simp add: generate_dummy_prediction_eq Let_def)
  show ?thesis
    unfolding finish_block_def
    apply (simp add: and_then_def predict_step_def p raise_or_def Let_def mkdir_step_def ok
        write_step_def read_created_at_def r with_jobs_lock_def)
    apply blast
    done
qed

lemma run_inference_success:
  fixes w :: world and jid bid ip it iid :: string and r :: nat and E :: env and L :: pylib
  assumes r: "jobs w jid = Some r"
    and h: "compute_input_hash E L ip it = Inr ih"
    and ok: "mkdir_error E jid = None" "write_error E jid ''results.json'' = None"
      "write_error E jid ''metadata.json'' = None"
  shows "\<exists>res s. run_inference E L ip it bid jid iid (w, []) = Inr ((), s) \<and>
      jobs (fst s) = jobs w \<and>
      status (heap (fst s) r) = ''completed'' \<and> progress (heap (fst s) r) = 100 \<and>
      results (heap (fst s) r) = Some res \<and> error (heap (fst s) r) = error (heap w r)"
proof -
  define w1 where "w1 = assign_fields r mark_processing w"
  define ws where "ws = stage_worlds r (stages bid) w1"
  define w6 where "w6 = last (w1 # ws)"
  have 1: "with_jobs_lock jid mark_processing (w, []) = Inr ((), (w1, [w1]))"
    using r by (simp add: with_jobs_lock_Some w1_def)
  have j1: "jobs w1 = jobs w" by (simp add: w1_def)
  have 3: "run_stages jid (stages bid) (w1, [w1]) = Inr ((), (w6, w1 # ws))"
    using run_stages_Some [of "(w1, [w1])" jid r "stages bid"] r j1
    by (simp add: ws_def w6_def)
  have j6: "jobs w6 = jobs w"
    using j1 jobs_stage_worlds [of w1 r "stages bid"] by (simp add: ws_def w6_def)
  have e6: "error (heap w6 r) = error (heap w r)"
    using heap_last_stage_worlds [of w1 r "stages bid"]
    by (simp add: w6_def ws_def w1_def stages_def set_stage_def mark_processing_def)
  have eq: "try_block E L ip it bid jid iid (w, []) =
      finish_block E L ip it bid jid iid ih (w6, w1 # ws)"
    by (simp add: try_block_def and_then_def 1 3 h raise_or_def)
  have r6: "jobs (fst (w6, w1 # ws)) jid = Some r" using j6 r by simp
  from finish_block_success [OF r6 ok, of L ip it bid iid ih]
  obtain res w' where f: "finish_block E L ip it bid jid iid ih (w6, w1 # ws) =
      Inr ((), (assign_fields r (mark_completed res) w',
                (w1 # ws) @ [assign_fields r (mark_completed res) w']))"
    by auto
  from completes_finish_block [of r jid E L ip it bid iid ih, unfolded completes_def,
      rule_format, OF r6] f
  obtain res' w'' where q: "jobs w'' = jobs w6" "heap w'' = heap w6"
    and f': "finish_block E L ip it bid jid iid ih (w6, w1 # ws) =
      Inr ((), (assign_fields r (mark_completed res') w'',
                (w1 # ws) @ [assign_fields r (mark_completed res') w'']))"
    by (auto simp: quiet_def)
  show ?thesis
    apply (rule exI [of _ res'])
    apply (rule exI [of _ "(assign_fields r (mark_completed res') w'',
                (w1 # ws) @ [assign_fields r (mark_completed res') w''])"])
    apply (simp add: run_inference_def eq f' q j6 e6 mark_completed_def)
    done
qed

subsection \<open>Failures, queries and references\<close>

lemma try_block_raises:
  fixes w :: world and jid bid ip it iid :: string and r :: nat and E :: env and L :: pylib
  assumes r: "jobs w jid = Some r"
    and f: "try_block E L ip it bid jid iid (w, []) = Inl (e, s')"
  shows "jobs (fst s') jid = Some r"
  using try_block_cases [OF r, of E L ip it bid iid] f r by auto

lemma run_inference_on_failure:
  fixes w :: world and jid bid ip it iid :: string and r :: nat and E :: env and L :: pylib
  assumes r: "jobs w jid = Some r"
    and f: "try_block E L ip it bid jid iid (w, []) = Inl (e, s')"
  shows "run_inference E L ip it bid jid iid (w, []) =
     Inr ((), (assign_fields r (mark_failed e) (fst s'),
               snd s' @ [assign_fields r (mark_failed e) (fst s')]))"
  using try_block_raises [OF r f]
  by (simp add: run_inference_def f except_block_def with_jobs_lock_Some)

lemma hash_failure_raises:
  assumes r: "jobs w jid = Some r" and h: "compute_input_hash E L ip it = Inl e"
  shows "try_block E L ip it bid jid iid (w, []) =
     Inl (e, (assign_fields r mark_processing w, [assign_fields r mark_processing w]))"
  using r by (simp add: try_block_def and_then_def with_jobs_lock_Some raise_or_def h)

lemma example_submitted_world:
  "example_submitted =
     example_world\<lparr>jobs := (jobs example_world)(''job-1'' \<mapsto> 0),
       heap := (heap example_world)(0 :=
          \<lparr>job_id = ''job-1'', input_id = ''in1'', input_type = ''skeleton'',
           behavior_id = ''B1'', status = ''pending'', progress = 0,
           message = ''En cola...'', error = None, results = None,
           created_at = ''2024-01-01T00:00:00Z''\<rparr>),
       next_ref := Suc 0\<rparr>"
  by (simp add: example_submitted_def start_inference_def BEHAVIOR_IDS_def example_env_def
      find_input_def SKELETONS_DIR_def example_world_def)

lemma example_submitted_job:
  "heap example_submitted 0 =
     \<lparr>job_id = ''job-1'', input_id = ''in1'', input_type = ''skeleton'',
      behavior_id = ''B1'', status = ''pending'', progress = 0,
      message = ''En cola...'', error = None, results = None,
      created_at = ''2024-01-01T00:00:00Z''\<rparr>"
  by (simp add: example_submitted_world)

text \<open>
  C3. When the body of the \<open>try\<close> raises an exception \<open>e\<close>, at whatever step, the run
  returns after one more update, the last entry of the log: the job's status is
  \<open>failed\<close>, its error is \<open>str(e)\<close> as it is, its message \<open>"Error: " + str(e)\<close>, its
  progress and results are what they were. The error description is non-empty exactly
  when \<open>str(e)\<close> is.
\<close>

theorem failure_marks_job_failed:
  fixes w :: world and jid bid ip it iid :: string and r :: nat and E :: env and L :: pylib
  assumes r: "jobs w jid = Some r"
    and f: "try_block E L ip it bid jid iid (w, []) = Inl (e, s')"
  shows "\<exists>wf. run_inference E L ip it bid jid iid (w, []) = Inr ((), (wf, snd s' @ [wf])) \<and>
      heap wf r = mark_failed e (heap (fst s') r) \<and>
      status (heap wf r) = ''failed'' \<and>
      error (heap wf r) = Some (exc_str e) \<and>
      message (heap wf r) = ''Error: '' @ exc_str e \<and>
      progress (heap wf r) = progress (heap (fst s') r) \<and>
      results (heap wf r) = results (heap (fst s') r) \<and>
      (error (heap wf r) \<noteq> Some []) = (exc_str e \<noteq> [])"
  by (rule exI [of _ "assign_fields r (mark_failed e) (fst s')"])
    (simp add: run_inference_on_failure [OF r f] mark_failed_def)

theorem failure_marks_job_failed_witness:
  "jobs example_submitted ''job-1'' = Some 0 \<and>
   try_block example_env example_lib ''skeletons/missing.json'' ''skeleton'' ''B1'' ''job-1''
       ''in1'' (example_submitted, []) =
     Inl (Exc ''FileNotFoundError'' ''skeletons/missing.json'',
          (assign_fields 0 mark_processing example_submitted,
           [assign_fields 0 mark_processing example_submitted])) \<and>
   map_option status (final_job 0
     (run_inference example_env example_lib ''skeletons/missing.json'' ''skeleton'' ''B1''
        ''job-1'' ''in1'' (example_submitted, []))) = Some ''failed'' \<and>
   map_option error (final_job 0
     (run_inference example_env example_lib ''skeletons/missing.json'' ''skeleton'' ''B1''
        ''job-1'' ''in1'' (example_submitted, []))) = Some (Some ''skeletons/missing.json'')"
proof -
  have a: "jobs example_submitted ''job-1'' = Some 0"
    using example_submitted_eq by simp
  have h: "compute_input_hash example_env example_lib ''skeletons/missing.json'' ''skeleton''
      = Inl (Exc ''FileNotFoundError'' ''skeletons/missing.json'')"
    by (simp add: compute_input_hash_def example_env_def)
  note b = hash_failure_raises [OF a h, of "''B1''" "''in1''"]
  from failure_marks_job_failed [OF a b]
  obtain wf where "run_inference example_env example_lib ''skeletons/missing.json''
        ''skeleton'' ''B1'' ''job-1'' ''in1'' (example_submitted, []) =
      Inr ((), (wf, snd (assign_fields 0 mark_processing example_submitted,
           [assign_fields 0 mark_processing example_submitted]) @ [wf]))"
    "status (heap wf 0) = ''failed''"
    "error (heap wf 0) = Some (exc_str (Exc ''FileNotFoundError'' ''skeletons/missing.json''))"
    by blast
  then show ?thesis using a b by (simp add: final_job_def)
qed

theorem failure_description_can_be_empty:
  "map_option status (final_job 0
     (run_inference example_env_oom example_lib ''skeletons/in1.json'' ''skeleton'' ''B1''
        ''job-1'' ''in1'' (example_submitted, []))) = Some ''failed'' \<and>
   map_option error (final_job 0
     (run_inference example_env_oom example_lib ''skeletons/in1.json'' ''skeleton'' ''B1''
        ''job-1'' ''in1'' (example_submitted, []))) = Some (Some [])"
proof -
  have a: "jobs example_submitted ''job-1'' = Some 0"
    using example_submitted_eq by simp
  have h: "compute_input_hash example_env_oom example_lib ''skeletons/in1.json'' ''skeleton''
      = Inl (Exc ''MemoryError'' [])"
    by (simp add: compute_input_hash_def example_env_oom_def)
  note b = hash_failure_raises [OF a h, of "''B1''" "''in1''"]
  show ?thesis
    by (simp add: run_inference_on_failure [OF a b] final_job_def mark_failed_def)
qed

lemma example_completed_job:
  "jobs example_completed ''job-1'' = Some 0 \<and>
   status (heap example_completed 0) = ''completed'' \<and>
   progress (heap example_completed 0) = 100 \<and>
   (\<exists>res. results (heap example_completed 0) = Some res)"
proof -
  have a: "jobs example_submitted ''job-1'' = Some 0"
    using example_submitted_eq by simp
  have h: "compute_input_hash example_env example_lib ''skeletons/in1.json'' ''skeleton''
      = Inr (compute_data_hash example_lib
               (JObj [(''b'', JInt 1), (''a'', JList [JInt 2, JNull])]))"
    by (simp add: compute_input_hash_def example_env_def)
  have ok: "mkdir_error example_env ''job-1'' = None"
    "write_error example_env ''job-1'' ''results.json'' = None"
    "write_error example_env ''job-1'' ''metadata.json'' = None"
    by (simp_all add: example_env_def)
  from run_inference_success [OF a h ok, of "''B1''" "''in1''"] a
  show ?thesis by (auto simp: example_completed_def)
qed

text \<open>
  C7. The results query fails with 404 "Job not found" for an unknown job identifier and
  with 400 "Job not completed. Current status: ..." for a job whose status is not
  \<open>completed\<close>; it returns the results of a completed job that has them, and whenever it
  returns a payload the job exists and is completed. The two errors differ.
\<close>

theorem results_query_outcomes:
  "(jobs w jid = None \<longrightarrow> get_job_results w jid = Inl (HTTPException 404 ''Job not found'')) \<and>
   (\<forall>r. jobs w jid = Some r \<and> status (heap w r) \<noteq> ''completed'' \<longrightarrow>
      get_job_results w jid =
        Inl (HTTPException 400 (''Job not completed. Current status: '' @ status (heap w r)))) \<and>
   (\<forall>r res. jobs w jid = Some r \<and> status (heap w r) = ''completed'' \<and>
        results (heap w r) = Some res \<longrightarrow> get_job_results w jid = Inr res) \<and>
   (\<forall>res. get_job_results w jid = Inr res \<longrightarrow>
      (\<exists>r. jobs w jid = Some r \<and> status (heap w r) = ''completed'')) \<and>
   HTTPException 404 ''Job not found'' \<noteq> HTTPException 400 d"
  by (auto simp: get_job_results_def job_results_response_def jobs_get_def
      split: option.splits if_splits)

theorem results_query_outcomes_witness:
  "jobs example_world ''job-1'' = None \<and>
   get_job_results example_world ''job-1'' = Inl (HTTPException 404 ''Job not found'') \<and>
   jobs example_submitted ''job-1'' = Some 0 \<and>
   status (heap example_submitted 0) \<noteq> ''completed'' \<and>
   get_job_results example_submitted ''job-1'' =
     Inl (HTTPException 400 ''Job not completed. Current status: pending'') \<and>
   jobs example_completed ''job-1'' = Some 0 \<and>
   status (heap example_completed 0) = ''completed'' \<and>
   get_job_results example_completed ''job-1'' = Inr (the (results (heap example_completed 0)))"
proof -
  have a: "jobs example_world ''job-1'' = None" by (simp add: example_world_def)
  have b: "jobs example_submitted ''job-1'' = Some 0"
    "status (heap example_submitted 0) = ''pending''"
    using example_submitted_eq by simp_all
  obtain res where c: "jobs example_completed ''job-1'' = Some 0"
    "status (heap example_completed 0) = ''completed''"
    "results (heap example_completed 0) = Some res"
    using example_completed_job by blast
  from results_query_outcomes [of example_world "''job-1''"] a
  have 1: "get_job_results example_world ''job-1'' = Inl (HTTPException 404 ''Job not found'')"
    by blast
  from results_query_outcomes [of example_submitted "''job-1''"] b
  have 2: "get_job_results example_submitted ''job-1'' =
     Inl (HTTPException 400 ''Job not completed. Current status: pending'')"
    by simp
  from results_query_outcomes [of example_completed "''job-1''"] c
  have 3: "get_job_results example_completed ''job-1'' = Inr res"
    by blast
  from a b c 1 2 3 show ?thesis by simp
qed

text \<open>
  C6. What the handlers obtain from the registry under the lock is the reference the
  registry itself holds, not a copy: after an update of the job by the runner the same
  reference is still registered, the dict behind it is the updated one, and the status
  response built through it shows the fields after the update.
\<close>

theorem reader_holds_live_reference:
  assumes g: "jobs_get w jid = Some r"
    and u: "with_jobs_lock jid f (w, lg) = Inr ((), (w', lg'))"
  shows "jobs_get w jid = jobs w jid \<and>
     jobs_get w' jid = Some r \<and>
     heap w' r = f (heap w r) \<and>
     job_status_response w' (jobs_get w jid) =
       Inr \<lparr>js_status = status (f (heap w r)), js_progress = progress (f (heap w r)),
            js_message = message (f (heap w r)), js_error = error (f (heap w r))\<rparr>"
  using g u by (auto simp: jobs_get_def with_jobs_lock_def Let_def job_status_response_def)

theorem reader_holds_live_reference_witness:
  "jobs_get example_submitted ''job-1'' = Some 0 \<and>
   with_jobs_lock ''job-1'' mark_processing (example_submitted, []) =
     Inr ((), (assign_fields 0 mark_processing example_submitted,
               [assign_fields 0 mark_processing example_submitted])) \<and>
   job_status_response (assign_fields 0 mark_processing example_submitted)
       (jobs_get example_submitted ''job-1'') =
     Inr \<lparr>js_status = ''processing'', js_progress = 5,
          js_message = ''Iniciando procesamiento...'', js_error = None\<rparr>"
proof -
  have a: "jobs_get example_submitted ''job-1'' = Some 0"
    using example_submitted_eq by (simp add: jobs_get_def)
  have b: "with_jobs_lock ''job-1'' mark_processing (example_submitted, []) =
     Inr ((), (assign_fields 0 mark_processing example_submitted,
               [assign_fields 0 mark_processing example_submitted]))"
    using example_submitted_eq by (simp add: with_jobs_lock_Some)
  have c: "mark_processing (heap example_submitted 0) =
      \<lparr>job_id = ''job-1'', input_id = ''in1'', input_type = ''skeleton'',
       behavior_id = ''B1'', status = ''processing'', progress = 5,
       message = ''Iniciando procesamiento...'', error = None, results = None,
       created_at = ''2024-01-01T00:00:00Z''\<rparr>"
    by (simp add: example_submitted_job mark_processing_def)
  from reader_holds_live_reference [OF a b, THEN conjunct2, THEN conjunct2, THEN conjunct2]
  have "job_status_response (assign_fields 0 mark_processing example_submitted)
       (jobs_get example_submitted ''job-1'') =
     Inr \<lparr>js_status = ''processing'', js_progress = 5,
          js_message = ''Iniciando procesamiento...'', js_error = None\<rparr>"
    by (simp add: c)
  with a b show ?thesis by blast
qed

theorem reader_sees_later_update:
  "job_status_response example_submitted (jobs_get example_submitted ''job-1'') =
     Inr \<lparr>js_status = ''pending'', js_progress = 0, js_message = ''En cola...'',
          js_error = None\<rparr> \<and>
   job_status_response (assign_fields 0 mark_processing example_submitted)
       (jobs_get example_submitted ''job-1'') =
     Inr \<lparr>js_status = ''processing'', js_progress = 5,
          js_message = ''Iniciando procesamiento...'', js_error = None\<rparr> \<and>
   map_sum id js_status
     (job_status_response example_completed (jobs_get example_submitted ''job-1'')) =
     Inr ''completed''"
proof -
  have a: "jobs_get example_submitted ''job-1'' = Some 0"
    using example_submitted_eq by (simp add: jobs_get_def)
  have 1: "job_status_response example_submitted (Some 0) =
     Inr \<lparr>js_status = ''pending'', js_progress = 0, js_message = ''En cola...'',
          js_error = None\<rparr>"
    by (simp add: job_status_response_def example_submitted_job)
  have 2: "job_status_response (assign_fields 0 mark_processing example_submitted) (Some 0) =
     Inr \<lparr>js_status = ''processing'', js_progress = 5,
          js_message = ''Iniciando procesamiento...'', js_error = None\<rparr>"
    by (simp add: job_status_response_def example_submitted_job mark_processing_def)
  have 3: "map_sum id js_status (job_status_response example_completed (Some 0)) =
     Inr ''completed''"
    using example_completed_job by (simp add: job_status_response_def)
  show ?thesis unfolding a using 1 2 3 by blast
qed

subsection \<open>Content Hasher: key order\<close>

lemma distinct_keys_sort_key:
  "distinct (map fst kvs) \<Longrightarrow> distinct (map fst (sort_key fst kvs))"
  by (simp add: distinct_map)

lemma sorted_keys_eq:
  fixes kvs kvs' :: "(string \<times> json) list"
  assumes "distinct (map fst kvs)" "distinct (map fst kvs')"
    and "set (map fst kvs) = set (map fst kvs')"
  shows "map fst (sort_key fst kvs) = map fst (sort_key fst kvs')"
proof (rule sorted_distinct_set_unique)
  show "sorted (map fst (sort_key fst kvs))" by (rule sorted_sort_key)
  show "sorted (map fst (sort_key fst kvs'))" by (rule sorted_sort_key)
  show "distinct (map fst (sort_key fst kvs))" using assms(1) by (rule distinct_keys_sort_key)
  show "distinct (map fst (sort_key fst kvs'))" using assms(2) by (rule distinct_keys_sort_key)
  show "set (map fst (sort_key fst kvs)) = set (map fst (sort_key fst kvs'))"
    using assms(3) by simp
qed

lemma map_eq_list_all2: "list_all2 (\<lambda>x y. f x = f y) xs ys \<Longrightarrow> map f xs = map f ys"
  by (induction xs ys rule: list_all2_induct) simp_all

lemma dumps_same_doc: "same_doc a b \<Longrightarrow> dumps L a = dumps L b"
proof (induction rule: same_doc.induct)
  case (same_list xs ys)
  then have "list_all2 (\<lambda>x y. dumps L x = dumps L y) xs ys"
    by (simp add: list_all2_conv_all_nth)
  then have "map (dumps L) xs = map (dumps L) ys" by (rule map_eq_list_all2)
  then show ?case by simp
next
  case (same_obj kvs kvs')
  let ?s = "sort_key fst kvs" and ?s' = "sort_key fst kvs'"
  let ?g = "\<lambda>kv. encode_basestring_ascii L (fst kv) @ '': '' @ dumps L (snd kv)"
  have keys: "map fst ?s = map fst ?s'"
    using same_obj(1-3) by (rule sorted_keys_eq)
  then have len: "length ?s = length ?s'" by (rule map_eq_imp_length_eq)
  have "map ?g ?s = map ?g ?s'"
  proof (rule nth_equalityI)
    show "length (map ?g ?s) = length (map ?g ?s')" using len by simp
  next
    fix i assume "i < length (map ?g ?s)"
    then have i: "i < length ?s" "i < length ?s'" using len by simp_all
    have k: "fst (?s ! i) = fst (?s' ! i)"
      using keys i by (metis nth_map)
    have "?s ! i \<in> set ?s" using i(1) by (rule nth_mem)
    then have m: "(fst (?s ! i), snd (?s ! i)) \<in> set kvs" by simp
    have "?s' ! i \<in> set ?s'" using i(2) by (rule nth_mem)
    then have m': "(fst (?s ! i), snd (?s' ! i)) \<in> set kvs'" by (simp add: k)
    from same_obj(4) m m' have "dumps L (snd (?s ! i)) = dumps L (snd (?s' ! i))" by blast
    then show "map ?g ?s ! i = map ?g ?s' ! i" using i k by simp
  qed
  then show ?case by simp
qed simp_all

text \<open>
  C8. Two documents that are the same up to the order of the keys of their mappings, at
  any depth, have the same fingerprint: \<open>json.dumps(data, sort_keys=True)\<close> writes the
  items of every dict in the order of their keys, so the two texts digested are equal.
\<close>

theorem key_order_same_fingerprint:
  "same_doc a b \<Longrightarrow> compute_data_hash L a = compute_data_hash L b"
  by (simp add: compute_data_hash_def dumps_same_doc [of a b L])

theorem key_order_same_fingerprint_witness:
  "same_doc
     (JObj [(''b'', JObj [(''y'', JInt 1), (''x'', JNull)]), (''a'', JList [JInt 2])])
     (JObj [(''a'', JList [JInt 2]), (''b'', JObj [(''x'', JNull), (''y'', JInt 1)])]) \<and>
   JObj [(''b'', JObj [(''y'', JInt 1), (''x'', JNull)]), (''a'', JList [JInt 2])] \<noteq>
   JObj [(''a'', JList [JInt 2]), (''b'', JObj [(''x'', JNull), (''y'', JInt 1)])] \<and>
   compute_data_hash example_lib
     (JObj [(''b'', JObj [(''y'', JInt 1), (''x'', JNull)]), (''a'', JList [JInt 2])]) =
   compute_data_hash example_lib
     (JObj [(''a'', JList [JInt 2]), (''b'', JObj [(''x'', JNull), (''y'', JInt 1)])])"
proof -
  have inner: "same_doc (JObj [(''y'', JInt 1), (''x'', JNull)])
      (JObj [(''x'', JNull), (''y'', JInt 1)])"
    by (rule same_obj) (auto intro: same_doc.intros)
  have lst: "same_doc (JList [JInt 2]) (JList [JInt 2])"
    by (rule same_list) (simp add: same_int)
  have outer: "same_doc
     (JObj [(''b'', JObj [(''y'', JInt 1), (''x'', JNull)]), (''a'', JList [JInt 2])])
     (JObj [(''a'', JList [JInt 2]), (''b'', JObj [(''x'', JNull), (''y'', JInt 1)])])"
    by (rule same_obj) (auto intro: inner lst)
  from key_order_same_fingerprint [OF outer, of example_lib] outer
  show ?thesis by simp
qed

text \<open>The text digested for the document of the example skeleton file.\<close>

lemma dumps_example:
  "dumps example_lib (JObj [(''b'', JInt 1), (''a'', JList [JInt 2, JNull])]) =
     ''{\"a\": [2, null], \"b\": 1}''"
  by (simp add: example_lib_def str_int_def str_nat.simps)

subsection \<open>Job Runner: a failure of the persistence\<close>

text \<open>
  A failure of the persistence is a failure of the run: when the hashing succeeds and
  \<open>mkdir\<close> raises \<open>e\<close>, the job ends failed with \<open>str(e)\<close> as its error, after all the
  stages.
\<close>

lemma mkdir_failure_marks_failed:
  fixes w :: world and jid bid ip it iid :: string and r :: nat and E :: env and L :: pylib
  assumes r: "jobs w jid = Some r"
    and h: "compute_input_hash E L ip it = Inr ih"
    and m: "mkdir_error E jid = Some e"
  shows "map_option status (final_job r (run_inference E L ip it bid jid iid (w, []))) =
      Some ''failed'' \<and>
    map_option error (final_job r (run_inference E L ip it bid jid iid (w, []))) =
      Some (Some (exc_str e)) \<and>
    map_option progress (final_job r (run_inference E L ip it bid jid iid (w, []))) = Some 90"
proof -
  define w1 where "w1 = assign_fields r mark_processing w"
  define ws where "ws = stage_worlds r (stages bid) w1"
  define w6 where "w6 = last (w1 # ws)"
  have 1: "with_jobs_lock jid mark_processing (w, []) = Inr ((), (w1, [w1]))"
    using r by (simp add: with_jobs_lock_Some w1_def)
  have j1: "jobs w1 = jobs w" by (simp add: w1_def)
  have 3: "run_stages jid (stages bid) (w1, [w1]) = Inr ((), (w6, w1 # ws))"
    using run_stages_Some [of "(w1, [w1])" jid r "stages bid"] r j1
    by (simp add: ws_def w6_def)
  have p6: "progress (heap w6 r) = 90"
    using heap_last_stage_worlds [of w1 r "stages bid"]
    by (simp add: w6_def ws_def stages_def set_stage_def)
  obtain p g where p: "generate_dummy_prediction L (LABEL_MAP E) bid ih (rng w6) = (Inr p, g)"
    by (simp add: generate_dummy_prediction_eq Let_def)
  have f: "try_block E L ip it bid jid iid (w, []) = Inl (e, (w6\<lparr>rng := g\<rparr>, w1 # ws))"
    by (simp add: try_block_def and_then_def 1 3 h raise_or_def finish_block_def
        predict_step_def p Let_def mkdir_step_def m)
  show ?thesis
    by (simp add: run_inference_on_failure [OF r f] final_job_def mark_failed_def p6)
qed

end
